theory Spec2Isabelle
  imports Main "HOL-Library.Sublist" "HOL-Library.Char_ord" "HOL-Library.List_Lexorder"
begin

section \<open>Data model of the pipeline build planner (server/procBuilder.go)\<close>

text \<open>
  Go strings are byte sequences, modelled as \<open>string\<close> (a list of 8-bit characters).
  A Go \<open>map[string]string\<close> is a partial function; a map that may be \<open>nil\<close> is an
  \<open>option\<close> of one. Go's \<open>int\<close> and \<open>int64\<close> counters are modelled as \<open>int\<close>: the
  only arithmetic on them is one increment per list element, so a 64-bit counter
  cannot wrap on a list that fits in memory. A Go \<open>error\<close> is a value carrying its
  message.
\<close>

datatype error = Error string

type_synonym strmap = "string \<rightharpoonup> string"

text \<open>matrix.Axis is \<open>map[string]string\<close>.\<close>

type_synonym Axis = strmap

text \<open>
  Modelled from the spec: the status constants of package model, which is not among
  the sources ("State in Pending, Skipped, Running, Success, Failure, ..."). The
  planner itself only uses \<open>StatusPending\<close> and \<open>StatusSkipped\<close>.
\<close>

datatype status = StatusSkipped | StatusPending | StatusRunning | StatusSuccess | StatusFailure

text \<open>
  Modelled from the spec: model.Proc, the ProcessDescriptor, with the fields the
  planner writes (the spec's BuildID, PID, PPID, PGID, Name, State, Environ, and the
  ID that the planner leaves at zero and reads).
\<close>

record model_Proc =
  Proc_ID :: int
  BuildID :: int
  PID :: int
  PPID :: int
  PGID :: int
  Proc_Name :: string
  State :: status
  Environ :: Axis

text \<open>Modelled from the spec: remote.FileMeta, the PipelineDocument (Name and Data).\<close>

record remote_FileMeta =
  FileMeta_Name :: string
  FileMeta_Data :: string

text \<open>
  Modelled from the spec: the compiled configuration (package backend), an ordered
  list of stages, each an ordered list of steps. The planner reads only the alias
  of a step.
\<close>

record backend_Step =
  Alias :: string

record backend_Stage =
  Steps :: "backend_Step list"

record backend_Config =
  Stages :: "backend_Stage list"

record buildItem =
  Proc :: model_Proc
  Platform :: string
  Labels :: "strmap option"
  DependsOn :: "string list"
  RunsOn :: "string list"
  Config :: backend_Config

section \<open>sanitizePath\<close>

text \<open>strings.TrimSuffix and strings.TrimPrefix of the Go standard library.\<close>

definition TrimSuffix :: "string \<Rightarrow> string \<Rightarrow> string" where
  "TrimSuffix s suf = (if suffix suf s then take (length s - length suf) s else s)"

definition TrimPrefix :: "string \<Rightarrow> string \<Rightarrow> string" where
  "TrimPrefix s pre = (if prefix pre s then drop (length pre) s else s)"

definition sanitizePath :: "string \<Rightarrow> string \<Rightarrow> string" where
  "sanitizePath path configFolder =
     (let path = TrimSuffix path ''.yml'';
          path = TrimPrefix path configFolder;
          path = TrimPrefix path ''.''
      in path)"

section \<open>The dependency resolver\<close>

fun containsItemWithName :: "string \<Rightarrow> buildItem list \<Rightarrow> bool" where
  "containsItemWithName name [] = False"
| "containsItemWithName name (item # items) =
     (if name = Proc_Name (Proc item) then True else containsItemWithName name items)"

text \<open>
  The first loop of filterItemsWithMissingDependencies: an item is appended once for
  each of its dependencies that no item of the list is named after.
\<close>

definition itemsToRemove :: "buildItem list \<Rightarrow> buildItem list" where
  "itemsToRemove items =
     concat (map (\<lambda>item.
       concat (map (\<lambda>dep. if \<not> containsItemWithName dep items then [item] else [])
                   (DependsOn item))) items)"

lemma containsItemWithName_iff:
  "containsItemWithName name items \<longleftrightarrow> name \<in> set (map (\<lambda>i. Proc_Name (Proc i)) items)"
  by (induction items) auto

lemma itemsToRemove_subset: "set (itemsToRemove items) \<subseteq> set items"
  by (auto simp: itemsToRemove_def split: if_splits)

lemma filtered_shorter:
  assumes "0 < length (itemsToRemove items)"
  shows "length (filter (\<lambda>item. \<not> containsItemWithName (Proc_Name (Proc item)) (itemsToRemove items)) items)
           < length items"
proof -
  from assms obtain r where r: "r \<in> set (itemsToRemove items)"
    by (cases "itemsToRemove items") auto
  then have "r \<in> set items"
    using itemsToRemove_subset by blast
  moreover have "containsItemWithName (Proc_Name (Proc r)) (itemsToRemove items)"
    using r by (auto simp: containsItemWithName_iff)
  ultimately show ?thesis
    by (auto intro!: length_filter_less)
qed

function filterItemsWithMissingDependencies :: "buildItem list \<Rightarrow> buildItem list" where
  "filterItemsWithMissingDependencies items =
     (if length (itemsToRemove items) > 0
      then filterItemsWithMissingDependencies
             (filter (\<lambda>item. \<not> containsItemWithName (Proc_Name (Proc item)) (itemsToRemove items)) items)
      else items)"
  by pat_completeness auto
termination
  by (relation "measure length") (auto simp: filtered_shorter)

declare filterItemsWithMissingDependencies.simps [simp del]

section \<open>Build context\<close>

text \<open>
  The structs of package model and package remote that the planner reads. Their
  declarations are not among the sources at hand; the fields are those that
  procBuilder.go accesses.
\<close>

record model_Repo =
  Repo_FullName :: string
  Repo_Link :: string
  Repo_Clone :: string
  Repo_Branch :: string
  Repo_IsPrivate :: bool
  Repo_IsTrusted :: bool
  Repo_Config :: string

record model_Build =
  Build_ID :: int
  Build_Number :: int
  Build_Parent :: int
  Build_Created :: int
  Build_Started :: int
  Build_Finished :: int
  Build_Status :: string
  Build_Event :: string
  Build_Link :: string
  Build_Deploy :: string
  Build_Commit :: string
  Build_Ref :: string
  Build_Refspec :: string
  Build_Branch :: string
  Build_Message :: string
  Build_Author :: string
  Build_Email :: string
  Build_Avatar :: string
  Build_ChangedFiles :: "string list"
  Procs :: "model_Proc list"

record model_Netrc =
  Netrc_Login :: string
  Netrc_Password :: string
  Netrc_Machine :: string

record model_Secret =
  Secret_Name :: string
  Secret_Value :: string
  Secret_Images :: "string list"
  Secret_Events :: "string list"

record model_Registry =
  Registry_Address :: string
  Registry_Username :: string
  Registry_Password :: string
  Registry_Email :: string

record procBuilder =
  Repo :: model_Repo
  Curr :: model_Build
  Last :: model_Build
  Netrc :: model_Netrc
  Secs :: "model_Secret list"
  Regs :: "model_Registry list"
  Link :: string
  Yamls :: "remote_FileMeta list"
  Envs :: strmap

subsection \<open>frontend.Metadata\<close>

record frontend_Repo =
  FRepo_Name :: string
  FRepo_Link :: string
  FRepo_Remote :: string
  FRepo_Private :: bool
  FRepo_Branch :: string

record frontend_Author =
  Author_Name :: string
  Author_Email :: string
  Author_Avatar :: string

record frontend_Commit =
  Commit_Sha :: string
  Commit_Ref :: string
  Commit_Refspec :: string
  Commit_Branch :: string
  Commit_Message :: string
  Commit_Author :: frontend_Author
  Commit_ChangedFiles :: "string list"

record frontend_Build =
  FBuild_Number :: int
  FBuild_Parent :: int
  FBuild_Created :: int
  FBuild_Started :: int
  FBuild_Finished :: int
  FBuild_Status :: string
  FBuild_Event :: string
  FBuild_Link :: string
  FBuild_Target :: string
  FBuild_Commit :: frontend_Commit

record frontend_Job =
  Job_Number :: int
  Job_Matrix :: Axis

record frontend_System =
  Sys_Name :: string
  Sys_Link :: string
  Sys_Host :: string
  Sys_Arch :: string

record frontend_Metadata =
  Meta_Repo :: frontend_Repo
  Meta_Curr :: frontend_Build
  Meta_Prev :: frontend_Build
  Meta_Job :: frontend_Job
  Meta_Sys :: frontend_System

subsection \<open>The parsed pipeline definition and the compiler's options\<close>

text \<open>
  yaml.Config, the parsed definition: the planner reads its branch filter, platform,
  labels (a map that may be nil), dependencies and agent labels. Everything else
  of the definition (the steps, services, ...) only travels on to the compiler and
  is kept as one opaque field.
\<close>

record yaml_Constraint =
  Include :: "string list"
  Exclude :: "string list"

record yaml_Config =
  Branches :: yaml_Constraint
  Config_Platform :: string
  Config_Labels :: "strmap option"
  Config_DependsOn :: "string list"
  Config_RunsOn :: "string list"
  Config_Rest :: string

record compiler_Secret =
  CSecret_Name :: string
  CSecret_Value :: string
  CSecret_Match :: "string list"

record compiler_Registry =
  CRegistry_Hostname :: string
  CRegistry_Username :: string
  CRegistry_Password :: string
  CRegistry_Email :: string

text \<open>The server-wide setting Config.Pipeline.\<close>

record pipeline_Limits =
  MemSwapLimit :: int
  MemLimit :: int
  ShmSize :: int
  CPUQuota :: int
  CPUShares :: int
  CPUSet :: string

record pipeline_Config =
  Privileged :: "string list"
  Limits :: pipeline_Limits
  Volumes :: "string list"
  Networks :: "string list"

text \<open>
  The options handed to compiler.New, in the order of the call. WithOption applies
  the netrc option only when its flag (the repository is private) is set.
\<close>

record compiler_Options =
  WithEnviron :: strmap
  WithEnviron_Envs :: strmap
  WithEscalated :: "string list"
  WithResourceLimit :: pipeline_Limits
  WithVolumes :: "string list"
  WithNetworks :: "string list"
  WithLocal :: bool
  WithNetrc :: model_Netrc
  WithNetrc_enabled :: bool
  WithRegistry :: "compiler_Registry list"
  WithSecret :: "compiler_Secret list"
  WithPrefix :: string
  WithWorkspaceFromURL :: "string \<times> string"
  WithMetadata :: frontend_Metadata

subsection \<open>External collaborators\<close>

text \<open>
  The matrix parser, the placeholder engine (github.com/drone/envsubst), the YAML
  parser, the linter, the compiler, the methods of frontend.Metadata, model.Secret
  and the branch constraint, net/url, Go's \<open>%q\<close> formatting and the global random
  source are outside procBuilder.go. The planner is modelled over any behaviour of
  theirs: they are the fields of one record of functions. \<open>rand_Int n\<close> is the value
  of the \<open>n\<close>-th call of rand.Int during the plan; \<open>url_Parse_Host\<close> is \<open>None\<close> when
  url.Parse fails; \<open>linter_Lint\<close> is \<open>None\<close> when the definition passes.
\<close>

record externals =
  matrix_ParseString :: "string \<Rightarrow> error + Axis list"
  envsubst_Eval :: "string \<Rightarrow> (string \<Rightarrow> string) \<Rightarrow> error + string"
  fmt_Sprintf_q :: "string \<Rightarrow> string"
  yaml_ParseString :: "string \<Rightarrow> error + yaml_Config"
  linter_Lint :: "bool \<Rightarrow> yaml_Config \<Rightarrow> error option"
  Constraint_Match :: "yaml_Constraint \<Rightarrow> string \<Rightarrow> bool"
  Metadata_Environ :: "frontend_Metadata \<Rightarrow> strmap"
  Metadata_EnvironDrone :: "frontend_Metadata \<Rightarrow> strmap"
  Metadata_SetPlatform :: "frontend_Metadata \<Rightarrow> string \<Rightarrow> frontend_Metadata"
  Secret_Match :: "model_Secret \<Rightarrow> string \<Rightarrow> bool"
  compiler_Compile :: "compiler_Options \<Rightarrow> yaml_Config \<Rightarrow> backend_Config"
  rand_Int :: "nat \<Rightarrow> int"
  url_Parse_Host :: "string \<Rightarrow> string option"
  server_Config_Pipeline :: pipeline_Config

section \<open>Metadata, environment and substitution\<close>

definition frontend_Build_of :: "model_Build \<Rightarrow> int \<Rightarrow> frontend_Build" where
  "frontend_Build_of build parent =
     \<lparr>FBuild_Number = Build_Number build,
      FBuild_Parent = parent,
      FBuild_Created = Build_Created build,
      FBuild_Started = Build_Started build,
      FBuild_Finished = Build_Finished build,
      FBuild_Status = Build_Status build,
      FBuild_Event = Build_Event build,
      FBuild_Link = Build_Link build,
      FBuild_Target = Build_Deploy build,
      FBuild_Commit =
        \<lparr>Commit_Sha = Build_Commit build,
         Commit_Ref = Build_Ref build,
         Commit_Refspec = Build_Refspec build,
         Commit_Branch = Build_Branch build,
         Commit_Message = Build_Message build,
         Commit_Author =
           \<lparr>Author_Name = Build_Author build,
            Author_Email = Build_Email build,
            Author_Avatar = Build_Avatar build\<rparr>,
         Commit_ChangedFiles = Build_ChangedFiles build\<rparr>\<rparr>"

text \<open>
  metadataFromStruct. The two frontend.Build literals of the source differ only in
  that the previous build's Parent is left at its zero value.
\<close>

definition metadataFromStruct ::
  "externals \<Rightarrow> model_Repo \<Rightarrow> model_Build \<Rightarrow> model_Build \<Rightarrow> model_Proc \<Rightarrow> string \<Rightarrow> frontend_Metadata" where
  "metadataFromStruct X repo build lastBuild proc link =
     (let host = (case url_Parse_Host X link of None \<Rightarrow> link | Some h \<Rightarrow> h)
      in \<lparr>Meta_Repo =
             \<lparr>FRepo_Name = Repo_FullName repo,
              FRepo_Link = Repo_Link repo,
              FRepo_Remote = Repo_Clone repo,
              FRepo_Private = Repo_IsPrivate repo,
              FRepo_Branch = Repo_Branch repo\<rparr>,
           Meta_Curr = frontend_Build_of build (Build_Parent build),
           Meta_Prev = frontend_Build_of lastBuild 0,
           Meta_Job = \<lparr>Job_Number = PID proc, Job_Matrix = Environ proc\<rparr>,
           Meta_Sys =
             \<lparr>Sys_Name = ''drone'', Sys_Link = link, Sys_Host = host, Sys_Arch = ''linux/amd64''\<rparr>\<rparr>)"

text \<open>
  environmentVariables: the metadata environment, overwritten by the legacy
  metadata environment, overwritten by the axis. The receiver is not read.
\<close>

definition environmentVariables ::
  "externals \<Rightarrow> procBuilder \<Rightarrow> frontend_Metadata \<Rightarrow> Axis \<Rightarrow> strmap" where
  "environmentVariables X b metadata axis =
     (let environ = Metadata_Environ X metadata;
          environ = environ ++ Metadata_EnvironDrone X metadata;
          environ = environ ++ axis
      in environ)"

text \<open>
  The function literal that the method envsubst\_ hands to envsubst.Eval: a map read
  (the empty string for an absent key), quoted with \<open>%q\<close> when it contains a
  newline. A name cannot end in an underscore here, so the method is \<open>envsubst_'\<close>.
\<close>

definition envsubst_lookup :: "externals \<Rightarrow> strmap \<Rightarrow> string \<Rightarrow> string" where
  "envsubst_lookup X environ name =
     (let env = (case environ name of None \<Rightarrow> [] | Some v \<Rightarrow> v);
          env = (if CHR 0x0A \<in> set env then fmt_Sprintf_q X env else env)
      in env)"

definition envsubst_' :: "externals \<Rightarrow> procBuilder \<Rightarrow> string \<Rightarrow> strmap \<Rightarrow> error + string" where
  "envsubst_' X b y environ = envsubst_Eval X y (envsubst_lookup X environ)"

section \<open>Compilation\<close>

text \<open>Decimal formatting of an integer, for the prefix \<open>%d_%d\<close>.\<close>

fun itoa_nat :: "nat \<Rightarrow> string" where
  "itoa_nat n =
     (if n < 10 then [char_of (48 + n)] else itoa_nat (n div 10) @ [char_of (48 + n mod 10)])"

declare itoa_nat.simps [simp del]

definition itoa :: "int \<Rightarrow> string" where
  "itoa i = (if i < 0 then CHR ''-'' # itoa_nat (nat (- i)) else itoa_nat (nat i))"

text \<open>toInternalRepresentation; \<open>r\<close> is the value that its call of rand.Int returns.\<close>

definition toInternalRepresentation ::
  "externals \<Rightarrow> procBuilder \<Rightarrow> yaml_Config \<Rightarrow> strmap \<Rightarrow> frontend_Metadata \<Rightarrow> int \<Rightarrow> int \<Rightarrow> backend_Config" where
  "toInternalRepresentation X b parsed environ metadata procID r =
     (let secrets =
            map (\<lambda>sec. \<lparr>CSecret_Name = Secret_Name sec,
                         CSecret_Value = Secret_Value sec,
                         CSecret_Match = Secret_Images sec\<rparr>)
                (filter (\<lambda>sec. Secret_Match X sec (Build_Event (Curr b))) (Secs b));
          registries =
            map (\<lambda>reg. \<lparr>CRegistry_Hostname = Registry_Address reg,
                         CRegistry_Username = Registry_Username reg,
                         CRegistry_Password = Registry_Password reg,
                         CRegistry_Email = Registry_Email reg\<rparr>)
                (Regs b);
          pipeline = server_Config_Pipeline X
      in compiler_Compile X
           \<lparr>WithEnviron = environ,
            WithEnviron_Envs = Envs b,
            WithEscalated = Privileged pipeline,
            WithResourceLimit = Limits pipeline,
            WithVolumes = Volumes pipeline,
            WithNetworks = Networks pipeline,
            WithLocal = False,
            WithNetrc = Netrc b,
            WithNetrc_enabled = Repo_IsPrivate (Repo b),
            WithRegistry = registries,
            WithSecret = secrets,
            WithPrefix = itoa procID @ ''_'' @ itoa r,
            WithWorkspaceFromURL = (''/drone'', Repo_Link (Repo b)),
            WithMetadata = metadata\<rparr>
           parsed)"

section \<open>Build\<close>

text \<open>
  The planner's loop state: the items appended so far, pidSequence, and the number
  of calls of rand.Int made so far.
\<close>

type_synonym build_state = "buildItem list \<times> int \<times> nat"

text \<open>
  The body of the loop over the axes of one document (lines 75 to 132): \<open>Inl\<close> is
  \<open>return nil, err\<close>; the state comes back unchanged but for the random source
  when the compiled configuration has no stage (\<open>continue\<close>).
\<close>

definition Build_axis ::
  "externals \<Rightarrow> procBuilder \<Rightarrow> remote_FileMeta \<Rightarrow> build_state \<Rightarrow> Axis \<Rightarrow> error + build_state" where
  "Build_axis X b y st axis =
     (case st of (items, pidSequence, n) \<Rightarrow>
      let proc = \<lparr>Proc_ID = 0,
                  BuildID = Build_ID (Curr b),
                  PID = pidSequence,
                  PPID = 0,
                  PGID = pidSequence,
                  Proc_Name = sanitizePath (FileMeta_Name y) (Repo_Config (Repo b)),
                  State = StatusPending,
                  Environ = axis\<rparr>;
          metadata = metadataFromStruct X (Repo b) (Curr b) (Last b) proc (Link b);
          environ = environmentVariables X b metadata axis
      in case envsubst_' X b (FileMeta_Data y) environ of
           Inl err \<Rightarrow> Inl err
         | Inr substituted \<Rightarrow>
             (case yaml_ParseString X substituted of
                Inl err \<Rightarrow> Inl err
              | Inr parsed \<Rightarrow>
                  (case linter_Lint X (Repo_IsTrusted (Repo b)) parsed of
                     Some lerr \<Rightarrow> Inl lerr
                   | None \<Rightarrow>
                       let proc = (if \<not> Constraint_Match X (Branches parsed) (Build_Branch (Curr b))
                                   then proc\<lparr>State := StatusSkipped\<rparr> else proc);
                           metadata = Metadata_SetPlatform X metadata (Config_Platform parsed);
                           ir = toInternalRepresentation X b parsed environ metadata (Proc_ID proc)
                                  (rand_Int X n)
                       in if length (Stages ir) = 0 then Inr (items, pidSequence, Suc n)
                          else
                            let item = \<lparr>Proc = proc,
                                        Platform = Sys_Arch (Meta_Sys metadata),
                                        Labels = Config_Labels parsed,
                                        DependsOn = Config_DependsOn parsed,
                                        RunsOn = Config_RunsOn parsed,
                                        Config = ir\<rparr>;
                                item = (if Labels item = None
                                        then item\<lparr>Labels := Some Map.empty\<rparr> else item)
                            in Inr (items @ [item], pidSequence + 1, Suc n))))"

fun Build_axes ::
  "externals \<Rightarrow> procBuilder \<Rightarrow> remote_FileMeta \<Rightarrow> build_state \<Rightarrow> Axis list \<Rightarrow> error + build_state" where
  "Build_axes X b y st [] = Inr st"
| "Build_axes X b y st (axis # axes) =
     (case Build_axis X b y st axis of
        Inl err \<Rightarrow> Inl err
      | Inr st' \<Rightarrow> Build_axes X b y st' axes)"

text \<open>The body of the loop over the documents (lines 65 to 133).\<close>

definition Build_yaml ::
  "externals \<Rightarrow> procBuilder \<Rightarrow> build_state \<Rightarrow> remote_FileMeta \<Rightarrow> error + build_state" where
  "Build_yaml X b st y =
     (case matrix_ParseString X (FileMeta_Data y) of
        Inl err \<Rightarrow> Inl err
      | Inr axes \<Rightarrow>
          Build_axes X b y st (if length axes = 0 then axes @ [Map.empty] else axes))"

fun Build_yamls ::
  "externals \<Rightarrow> procBuilder \<Rightarrow> build_state \<Rightarrow> remote_FileMeta list \<Rightarrow> error + build_state" where
  "Build_yamls X b st [] = Inr st"
| "Build_yamls X b st (y # ys) =
     (case Build_yaml X b st y of
        Inl err \<Rightarrow> Inl err
      | Inr st' \<Rightarrow> Build_yamls X b st' ys)"

text \<open>
  Modelled from the spec: remote.ByName, the order of sort.Sort(remote.ByName(b.Yamls)),
  is not in procBuilder.go; the items are "sorted by ascending document name", and
  Go compares strings bytewise. Go's sort is not stable; the order it leaves among
  documents of one and the same name is taken to be the given one.
\<close>

definition sort_ByName :: "remote_FileMeta list \<Rightarrow> remote_FileMeta list" where
  "sort_ByName yamls = sort_key FileMeta_Name yamls"

definition Build :: "externals \<Rightarrow> procBuilder \<Rightarrow> error + buildItem list" where
  "Build X b =
     (case Build_yamls X b ([], 1, 0) (sort_ByName (Yamls b)) of
        Inl err \<Rightarrow> Inl err
      | Inr (items, pidSequence, n) \<Rightarrow> Inr (filterItemsWithMissingDependencies items))"

section \<open>The process graph flattener\<close>

text \<open>The first loop of setBuildStepsOnBuild, over (build.Procs, pidSequence).\<close>

fun appendItemProcs :: "model_Proc list \<times> int \<Rightarrow> buildItem list \<Rightarrow> model_Proc list \<times> int" where
  "appendItemProcs (procs, pidSequence) [] = (procs, pidSequence)"
| "appendItemProcs (procs, pidSequence) (item # items) =
     appendItemProcs
       (procs @ [Proc item],
        if pidSequence < PID (Proc item) then PID (Proc item) else pidSequence)
       items"

text \<open>The loop over the steps of one stage, over (build.Procs, pidSequence, gid).\<close>

fun appendSteps ::
  "int \<Rightarrow> buildItem \<Rightarrow> model_Proc list \<times> int \<times> int \<Rightarrow> backend_Step list \<Rightarrow> model_Proc list \<times> int \<times> int" where
  "appendSteps buildID item (procs, pidSequence, gid) [] = (procs, pidSequence, gid)"
| "appendSteps buildID item (procs, pidSequence, gid) (step # steps) =
     (let pidSequence = pidSequence + 1;
          gid = (if gid = 0 then pidSequence else gid);
          proc = \<lparr>Proc_ID = 0,
                  BuildID = buildID,
                  PID = pidSequence,
                  PPID = PID (Proc item),
                  PGID = gid,
                  Proc_Name = Alias step,
                  State = StatusPending,
                  Environ = Map.empty\<rparr>;
          proc = (if State (Proc item) = StatusSkipped then proc\<lparr>State := StatusSkipped\<rparr> else proc)
      in appendSteps buildID item (procs @ [proc], pidSequence, gid) steps)"

fun appendStages ::
  "int \<Rightarrow> buildItem \<Rightarrow> model_Proc list \<times> int \<Rightarrow> backend_Stage list \<Rightarrow> model_Proc list \<times> int" where
  "appendStages buildID item (procs, pidSequence) [] = (procs, pidSequence)"
| "appendStages buildID item (procs, pidSequence) (stage # stages) =
     (case appendSteps buildID item (procs, pidSequence, 0) (Steps stage) of
        (procs', pidSequence', gid) \<Rightarrow> appendStages buildID item (procs', pidSequence') stages)"

fun appendItemSteps ::
  "int \<Rightarrow> model_Proc list \<times> int \<Rightarrow> buildItem list \<Rightarrow> model_Proc list \<times> int" where
  "appendItemSteps buildID (procs, pidSequence) [] = (procs, pidSequence)"
| "appendItemSteps buildID (procs, pidSequence) (item # items) =
     appendItemSteps buildID
       (appendStages buildID item (procs, pidSequence) (Stages (Config item))) items"

definition setBuildStepsOnBuild :: "model_Build \<Rightarrow> buildItem list \<Rightarrow> model_Build" where
  "setBuildStepsOnBuild build buildItems =
     (case appendItemProcs (Procs build, 0) buildItems of
        (procs, pidSequence) \<Rightarrow>
          (case appendItemSteps (Build_ID build) (procs, pidSequence) buildItems of
             (procs', pidSequence') \<Rightarrow> build\<lparr>Procs := procs'\<rparr>))"

section \<open>Notions used to state the properties\<close>

subsection \<open>Names and survivor sets of the dependency resolver\<close>

definition itemNames :: "buildItem list \<Rightarrow> string set" where
  "itemNames items = set (map (\<lambda>i. Proc_Name (Proc i)) items)"

text \<open>
  A set of names is closed for a list of items when it consists of names of items
  and every item carrying one of its names has all its dependencies in it.
\<close>

definition closedNames :: "buildItem list \<Rightarrow> string set \<Rightarrow> bool" where
  "closedNames items S \<longleftrightarrow>
     S \<subseteq> itemNames items \<and>
     (\<forall>i \<in> set items. Proc_Name (Proc i) \<in> S \<longrightarrow> set (DependsOn i) \<subseteq> S)"

text \<open>
  The rule of the specification, on items: a set of items of the list can survive
  when every name in the DependsOn of each of its items is the name of one of its
  items. The greatest such set is the union of all of them.
\<close>

definition survivable :: "buildItem list \<Rightarrow> buildItem set \<Rightarrow> bool" where
  "survivable items T \<longleftrightarrow>
     T \<subseteq> set items \<and>
     (\<forall>i \<in> T. \<forall>dep \<in> set (DependsOn i). \<exists>j \<in> T. Proc_Name (Proc j) = dep)"

definition greatestSurvivors :: "buildItem list \<Rightarrow> buildItem set" where
  "greatestSurvivors items = \<Union>{T. survivable items T}"

text \<open>One pass of filterItemsWithMissingDependencies: the list \<open>filtered\<close>.\<close>

definition prune :: "buildItem list \<Rightarrow> buildItem list" where
  "prune items =
     filter (\<lambda>item. \<not> containsItemWithName (Proc_Name (Proc item)) (itemsToRemove items)) items"

subsection \<open>The parts of the body of Build's loop\<close>

text \<open>The descriptor of lines 75 to 82.\<close>

definition newProc :: "procBuilder \<Rightarrow> remote_FileMeta \<Rightarrow> Axis \<Rightarrow> int \<Rightarrow> model_Proc" where
  "newProc b y axis pidSequence =
     \<lparr>Proc_ID = 0,
      BuildID = Build_ID (Curr b),
      PID = pidSequence,
      PPID = 0,
      PGID = pidSequence,
      Proc_Name = sanitizePath (FileMeta_Name y) (Repo_Config (Repo b)),
      State = StatusPending,
      Environ = axis\<rparr>"

definition jobMetadata ::
  "externals \<Rightarrow> procBuilder \<Rightarrow> remote_FileMeta \<Rightarrow> Axis \<Rightarrow> int \<Rightarrow> frontend_Metadata" where
  "jobMetadata X b y axis pidSequence =
     metadataFromStruct X (Repo b) (Curr b) (Last b) (newProc b y axis pidSequence) (Link b)"

text \<open>The environment that Build hands to the substitution (line 85).\<close>

definition substEnviron ::
  "externals \<Rightarrow> procBuilder \<Rightarrow> remote_FileMeta \<Rightarrow> Axis \<Rightarrow> int \<Rightarrow> strmap" where
  "substEnviron X b y axis pidSequence =
     environmentVariables X b (jobMetadata X b y axis pidSequence) axis"

text \<open>
  Substitution, parsing and linting of one document on one axis (lines 87 to 105):
  the parsed definition, or the error that Build returns.
\<close>

definition parsedFor ::
  "externals \<Rightarrow> procBuilder \<Rightarrow> remote_FileMeta \<Rightarrow> Axis \<Rightarrow> int \<Rightarrow> error + yaml_Config" where
  "parsedFor X b y axis pidSequence =
     (case envsubst_' X b (FileMeta_Data y) (substEnviron X b y axis pidSequence) of
        Inl err \<Rightarrow> Inl err
      | Inr substituted \<Rightarrow>
          (case yaml_ParseString X substituted of
             Inl err \<Rightarrow> Inl err
           | Inr parsed \<Rightarrow>
               (case linter_Lint X (Repo_IsTrusted (Repo b)) parsed of
                  Some lerr \<Rightarrow> Inl lerr
                | None \<Rightarrow> Inr parsed)))"

text \<open>The item that lines 107 to 129 build from a parsed definition.\<close>

definition builtItem ::
  "externals \<Rightarrow> procBuilder \<Rightarrow> remote_FileMeta \<Rightarrow> Axis \<Rightarrow> int \<Rightarrow> nat \<Rightarrow> yaml_Config \<Rightarrow> buildItem" where
  "builtItem X b y axis pidSequence n parsed =
     (let proc = newProc b y axis pidSequence;
          proc = (if \<not> Constraint_Match X (Branches parsed) (Build_Branch (Curr b))
                  then proc\<lparr>State := StatusSkipped\<rparr> else proc);
          metadata = Metadata_SetPlatform X (jobMetadata X b y axis pidSequence) (Config_Platform parsed);
          ir = toInternalRepresentation X b parsed (substEnviron X b y axis pidSequence) metadata
                 (Proc_ID proc) (rand_Int X n)
      in \<lparr>Proc = proc,
          Platform = Sys_Arch (Meta_Sys metadata),
          Labels = (case Config_Labels parsed of None \<Rightarrow> Some Map.empty | Some l \<Rightarrow> Some l),
          DependsOn = Config_DependsOn parsed,
          RunsOn = Config_RunsOn parsed,
          Config = ir\<rparr>)"

subsection \<open>The descriptors that setBuildStepsOnBuild appends\<close>

text \<open>
  \<open>emittedProcs\<close> is what setBuildStepsOnBuild appends to build.Procs: the descriptors
  of the items, then those of the steps; \<open>stepProcs\<close> is the latter part.
  \<open>stepOf item p\<close>: the step descriptor \<open>p\<close> has the item as its parent and
  the state that the flattener derives from the item's.
\<close>

definition emittedProcs :: "model_Build \<Rightarrow> buildItem list \<Rightarrow> model_Proc list" where
  "emittedProcs build buildItems =
     drop (length (Procs build)) (Procs (setBuildStepsOnBuild build buildItems))"

definition stepProcs :: "model_Build \<Rightarrow> buildItem list \<Rightarrow> model_Proc list" where
  "stepProcs build buildItems =
     drop (length (Procs build) + length buildItems) (Procs (setBuildStepsOnBuild build buildItems))"

definition stepOf :: "buildItem \<Rightarrow> model_Proc \<Rightarrow> bool" where
  "stepOf item p \<longleftrightarrow>
     PPID p = PID (Proc item) \<and>
     State p = (if State (Proc item) = StatusSkipped then StatusSkipped else StatusPending)"

subsection \<open>Axes and provenance\<close>

text \<open>
  \<open>documentAxes\<close>: the axes that Build iterates over for a document (lines 66 to 72).
  \<open>itemFromDefinition X b item parsed\<close>: the item was built, under its sequence number,
  from the parsed definition \<open>parsed\<close> of one of the documents on some axis.
\<close>

definition documentAxes :: "externals \<Rightarrow> remote_FileMeta \<Rightarrow> error + Axis list" where
  "documentAxes X y =
     (case matrix_ParseString X (FileMeta_Data y) of
        Inl err \<Rightarrow> Inl err
      | Inr axes \<Rightarrow> Inr (if length axes = 0 then axes @ [Map.empty] else axes))"

definition itemFromDefinition :: "externals \<Rightarrow> procBuilder \<Rightarrow> buildItem \<Rightarrow> yaml_Config \<Rightarrow> bool" where
  "itemFromDefinition X b item parsed \<longleftrightarrow>
     (\<exists>y \<in> set (Yamls b). \<exists>axis n.
        parsedFor X b y axis (PID (Proc item)) = Inr parsed \<and>
        item = builtItem X b y axis (PID (Proc item)) n parsed)"

subsection \<open>Failures of a document\<close>

text \<open>
  \<open>axisFails\<close>: on this axis and under this sequence number, the substitution, the
  parsing or the linting of the document returns the error. \<open>documentFails\<close>: from
  the planner's state \<open>st\<close>, the document's matrix does not parse, or its axes up
  to some axis are processed and that axis fails. \<open>docName\<close> is the sanitized name
  of a document.
\<close>

definition axisFails ::
  "externals \<Rightarrow> procBuilder \<Rightarrow> remote_FileMeta \<Rightarrow> int \<Rightarrow> Axis \<Rightarrow> error \<Rightarrow> bool" where
  "axisFails X b y pidSequence axis err \<longleftrightarrow>
     envsubst_' X b (FileMeta_Data y) (substEnviron X b y axis pidSequence) = Inl err
     \<or> (\<exists>substituted.
           envsubst_' X b (FileMeta_Data y) (substEnviron X b y axis pidSequence) = Inr substituted \<and>
           (yaml_ParseString X substituted = Inl err
            \<or> (\<exists>parsed. yaml_ParseString X substituted = Inr parsed \<and>
                  linter_Lint X (Repo_IsTrusted (Repo b)) parsed = Some err)))"

definition documentFails ::
  "externals \<Rightarrow> procBuilder \<Rightarrow> build_state \<Rightarrow> remote_FileMeta \<Rightarrow> error \<Rightarrow> bool" where
  "documentFails X b st y err \<longleftrightarrow>
     matrix_ParseString X (FileMeta_Data y) = Inl err
     \<or> (\<exists>axes1 axis axes2 items pidSequence n.
           documentAxes X y = Inr (axes1 @ axis # axes2) \<and>
           Build_axes X b y st axes1 = Inr (items, pidSequence, n) \<and>
           axisFails X b y pidSequence axis err)"

definition docName :: "procBuilder \<Rightarrow> remote_FileMeta \<Rightarrow> string" where
  "docName b y = sanitizePath (FileMeta_Name y) (Repo_Config (Repo b))"

subsection \<open>Example items for the dependency resolver\<close>

definition exampleItem :: "string \<Rightarrow> int \<Rightarrow> string list \<Rightarrow> buildItem" where
  "exampleItem name pid deps =
     \<lparr>Proc = \<lparr>Proc_ID = 0, BuildID = 1, PID = pid, PPID = 0, PGID = pid, Proc_Name = name,
              State = StatusPending, Environ = Map.empty\<rparr>,
      Platform = ''linux/amd64'',
      Labels = Some Map.empty,
      DependsOn = deps,
      RunsOn = [],
      Config = \<lparr>Stages = [\<lparr>Steps = [\<lparr>Alias = ''build''\<rparr>]\<rparr>]\<rparr>\<rparr>"

text \<open>\<open>a\<close> depends on \<open>b\<close>, \<open>b\<close> on \<open>c\<close>, and nothing is named \<open>c\<close>.\<close>

definition cascadeItems :: "buildItem list" where
  "cascadeItems = [exampleItem ''a'' 1 [''b''], exampleItem ''b'' 2 [''c''], exampleItem ''d'' 3 []]"

text \<open>Two items of one name, as two axes of one document give; only the first has a missing dependency.\<close>

definition sameNameItems :: "buildItem list" where
  "sameNameItems = [exampleItem ''x'' 1 [''missing''], exampleItem ''x'' 2 []]"

subsection \<open>An example planner\<close>

text \<open>
  Collaborators that are simple enough to evaluate. The matrix parser knows one
  malformed text and one text with two axes; the placeholder engine rejects an
  unterminated placeholder and otherwise returns the text; the parser keeps the text
  as the rest of the definition, a definition \<open>release only\<close> being restricted to the
  branch \<open>release\<close>; the linter rejects \<open>privileged\<close> for an untrusted repository; the
  compiler gives no stage for \<open>empty\<close>, and two stages with three steps otherwise.
\<close>

definition exampleQuote :: "string \<Rightarrow> string" where
  "exampleQuote s =
     CHR 0x22 # concat (map (\<lambda>c. if c = CHR 0x0A then [CHR 0x5C, CHR ''n''] else [c]) s) @ [CHR 0x22]"

definition exampleParse :: "string \<Rightarrow> yaml_Config" where
  "exampleParse text =
     \<lparr>Branches = \<lparr>Include = (if text = ''release only'' then [''release''] else []), Exclude = []\<rparr>,
      Config_Platform = [],
      Config_Labels = None,
      Config_DependsOn = (if text = ''needs deploy'' then [''deploy''] else []),
      Config_RunsOn = [],
      Config_Rest = text\<rparr>"

definition exampleStages :: "backend_Stage list" where
  "exampleStages =
     [\<lparr>Steps = [\<lparr>Alias = ''clone''\<rparr>]\<rparr>, \<lparr>Steps = [\<lparr>Alias = ''build''\<rparr>, \<lparr>Alias = ''test''\<rparr>]\<rparr>]"

definition exampleExternals :: externals where
  "exampleExternals =
     \<lparr>matrix_ParseString =
        (\<lambda>data. if data = ''bad matrix'' then Inl (Error ''matrix'')
                else if data = ''two axes'' then Inr [[''GO'' \<mapsto> ''1.1''], [''GO'' \<mapsto> ''1.2'']]
                else Inr []),
      envsubst_Eval = (\<lambda>text f. if text = ''${'' then Inl (Error ''substitution'') else Inr text),
      fmt_Sprintf_q = exampleQuote,
      yaml_ParseString =
        (\<lambda>text. if text = ''bad yaml'' then Inl (Error ''yaml'') else Inr (exampleParse text)),
      linter_Lint =
        (\<lambda>trusted parsed.
           if Config_Rest parsed = ''privileged'' \<and> \<not> trusted then Some (Error ''lint'') else None),
      Constraint_Match = (\<lambda>c branch. Include c = [] \<or> branch \<in> set (Include c)),
      Metadata_Environ = (\<lambda>metadata. [''CI_REPO'' \<mapsto> FRepo_Name (Meta_Repo metadata)]),
      Metadata_EnvironDrone = (\<lambda>metadata. [''DRONE_REPO'' \<mapsto> FRepo_Name (Meta_Repo metadata)]),
      Metadata_SetPlatform =
        (\<lambda>metadata platform.
           metadata\<lparr>Meta_Sys := (Meta_Sys metadata)
             \<lparr>Sys_Arch := (if platform = [] then ''linux/amd64'' else platform)\<rparr>\<rparr>),
      Secret_Match = (\<lambda>sec event. event \<in> set (Secret_Events sec)),
      compiler_Compile =
        (\<lambda>opts parsed. if Config_Rest parsed = ''empty'' then \<lparr>Stages = []\<rparr>
                       else \<lparr>Stages = exampleStages\<rparr>),
      rand_Int = int,
      url_Parse_Host = (\<lambda>link. None),
      server_Config_Pipeline =
        \<lparr>Privileged = [],
         Limits = \<lparr>MemSwapLimit = 0, MemLimit = 0, ShmSize = 0, CPUQuota = 0, CPUShares = 0,
                   CPUSet = []\<rparr>,
         Volumes = [],
         Networks = []\<rparr>\<rparr>"

definition exampleBuild :: model_Build where
  "exampleBuild =
     \<lparr>Build_ID = 7, Build_Number = 3, Build_Parent = 0, Build_Created = 0, Build_Started = 0,
      Build_Finished = 0, Build_Status = ''pending'', Build_Event = ''push'', Build_Link = [],
      Build_Deploy = [], Build_Commit = ''c0ffee'', Build_Ref = ''refs/heads/main'',
      Build_Refspec = [], Build_Branch = ''main'', Build_Message = [], Build_Author = [],
      Build_Email = [], Build_Avatar = [], Build_ChangedFiles = [], Procs = []\<rparr>"

text \<open>
  A builder for an untrusted repository on the branch \<open>main\<close>, whose caller-supplied
  extra environment sets \<open>GO\<close>.
\<close>

definition exampleBuilder :: "remote_FileMeta list \<Rightarrow> procBuilder" where
  "exampleBuilder yamls =
     \<lparr>Repo = \<lparr>Repo_FullName = ''octocat/hello'', Repo_Link = [], Repo_Clone = [],
              Repo_Branch = ''main'', Repo_IsPrivate = False, Repo_IsTrusted = False,
              Repo_Config = ''.woodpecker/''\<rparr>,
      Curr = exampleBuild,
      Last = exampleBuild,
      Netrc = \<lparr>Netrc_Login = [], Netrc_Password = [], Netrc_Machine = []\<rparr>,
      Secs = [],
      Regs = [],
      Link = ''https://ci.example.com'',
      Yamls = yamls,
      Envs = [''GO'' \<mapsto> ''extra'']\<rparr>"

definition doc :: "string \<Rightarrow> string \<Rightarrow> remote_FileMeta" where
  "doc name text = \<lparr>FileMeta_Name = name, FileMeta_Data = text\<rparr>"

text \<open>Two documents without a matrix; the second is restricted to the branch \<open>release\<close>.\<close>

definition twoDocs :: "remote_FileMeta list" where
  "twoDocs = [doc ''.woodpecker/test.yml'' ''release only'', doc ''.woodpecker/build.yml'' ''plain'']"

definition twoDocsPlan :: "buildItem list" where
  "twoDocsPlan =
     [builtItem exampleExternals (exampleBuilder twoDocs) (doc ''.woodpecker/build.yml'' ''plain'')
        Map.empty 1 0 (exampleParse ''plain''),
      builtItem exampleExternals (exampleBuilder twoDocs) (doc ''.woodpecker/test.yml'' ''release only'')
        Map.empty 2 1 (exampleParse ''release only'')]"

text \<open>One document with a matrix of two axes.\<close>

definition matrixDocs :: "remote_FileMeta list" where
  "matrixDocs = [doc ''.woodpecker/ci.yml'' ''two axes'']"

definition matrixPlan :: "buildItem list" where
  "matrixPlan =
     [builtItem exampleExternals (exampleBuilder matrixDocs) (doc ''.woodpecker/ci.yml'' ''two axes'')
        [''GO'' \<mapsto> ''1.1''] 1 0 (exampleParse ''two axes''),
      builtItem exampleExternals (exampleBuilder matrixDocs) (doc ''.woodpecker/ci.yml'' ''two axes'')
        [''GO'' \<mapsto> ''1.2''] 2 1 (exampleParse ''two axes'')]"

text \<open>A document that passes, followed by one that the linter rejects.\<close>

definition failingDocs :: "remote_FileMeta list" where
  "failingDocs = [doc ''.woodpecker/a.yml'' ''plain'', doc ''.woodpecker/b.yml'' ''privileged'']"

text \<open>
  The first step of the second item of \<open>twoDocsPlan\<close>, as the flattener emits it, and
  the state in which the planner reaches the second of \<open>failingDocs\<close>.
\<close>

definition skippedStep :: model_Proc where
  "skippedStep =
     \<lparr>Proc_ID = 0, BuildID = 7, PID = 6, PPID = 2, PGID = 6, Proc_Name = ''clone'',
      State = StatusSkipped, Environ = Map.empty\<rparr>"

definition failingState :: build_state where
  "failingState =
     ([builtItem exampleExternals (exampleBuilder failingDocs) (doc ''.woodpecker/a.yml'' ''plain'')
         Map.empty 1 0 (exampleParse ''plain'')], 2, 1)"

section \<open>Properties\<close>

subsection \<open>sanitizePath\<close>


lemma TrimSuffix_fix: "TrimSuffix s suf = s \<longleftrightarrow> (suf = [] \<or> \<not> suffix suf s)"
  by (auto simp: TrimSuffix_def suffix_def)

lemma TrimPrefix_fix: "TrimPrefix s pre = s \<longleftrightarrow> (pre = [] \<or> \<not> prefix pre s)"
  by (auto simp: TrimPrefix_def prefix_def)

lemma TrimSuffix_length: "length (TrimSuffix s suf) \<le> length s"
  by (simp add: TrimSuffix_def)

lemma TrimPrefix_length: "length (TrimPrefix s pre) \<le> length s"
  by (simp add: TrimPrefix_def)

lemma TrimSuffix_same_length: "length (TrimSuffix s suf) = length s \<Longrightarrow> TrimSuffix s suf = s"
  by (auto simp: TrimSuffix_def suffix_def split: if_splits)

lemma TrimPrefix_same_length: "length (TrimPrefix s pre) = length s \<Longrightarrow> TrimPrefix s pre = s"
  by (auto simp: TrimPrefix_def prefix_def split: if_splits)

lemma sanitizePath_fix:
  "sanitizePath r c = r \<longleftrightarrow> \<not> suffix ''.yml'' r \<and> (c = [] \<or> \<not> prefix c r) \<and> \<not> prefix ''.'' r"
proof
  assume fx: "sanitizePath r c = r"
  define a where "a = TrimSuffix r ''.yml''"
  define b where "b = TrimPrefix a c"
  define d where "d = TrimPrefix b ''.''"
  have "d = r"
    using fx by (simp add: sanitizePath_def a_def b_def d_def)
  moreover have "length d \<le> length b" "length b \<le> length a" "length a \<le> length r"
    by (simp_all add: a_def b_def d_def TrimSuffix_length TrimPrefix_length)
  ultimately have la: "length a = length r" and lb: "length b = length a" and ld: "length d = length b"
    by simp_all
  have "a = r"
    using la unfolding a_def by (rule TrimSuffix_same_length)
  moreover have "b = a"
    using lb unfolding b_def by (rule TrimPrefix_same_length)
  moreover have "d = b"
    using ld unfolding d_def by (rule TrimPrefix_same_length)
  ultimately have "TrimSuffix r ''.yml'' = r" "TrimPrefix r c = r" "TrimPrefix r ''.'' = r"
    by (simp_all add: a_def b_def d_def)
  then show "\<not> suffix ''.yml'' r \<and> (c = [] \<or> \<not> prefix c r) \<and> \<not> prefix ''.'' r"
    by (simp add: TrimSuffix_fix TrimPrefix_fix)
next
  assume "\<not> suffix ''.yml'' r \<and> (c = [] \<or> \<not> prefix c r) \<and> \<not> prefix ''.'' r"
  then have "TrimSuffix r ''.yml'' = r" "TrimPrefix r c = r" "TrimPrefix r ''.'' = r"
    by (simp_all add: TrimSuffix_fix TrimPrefix_fix)
  then show "sanitizePath r c = r"
    by (simp add: sanitizePath_def)
qed

text \<open>
  Claim C8, as amended. Sanitizing a name twice gives the same as sanitizing it once
  exactly when the once-sanitized name does not end in \<open>.yml\<close>, does not begin with
  the (non-empty) config folder, and does not begin with a dot. Each of the three
  trims removes one occurrence only, so a second pass can remove more.
\<close>

theorem sanitizePath_twice:
  "sanitizePath (sanitizePath x c) c = sanitizePath x c \<longleftrightarrow>
     \<not> suffix ''.yml'' (sanitizePath x c) \<and>
     (c = [] \<or> \<not> prefix c (sanitizePath x c)) \<and>
     \<not> prefix ''.'' (sanitizePath x c)"
  by (rule sanitizePath_fix)

lemma sanitizePath_build_yml: "sanitizePath ''.woodpecker/build.yml'' ''.woodpecker/'' = ''build''"
  by (simp add: sanitizePath_def TrimSuffix_def TrimPrefix_def suffix_to_prefix)

text \<open>The document \<open>.woodpecker/build.yml\<close> under the config folder \<open>.woodpecker/\<close>.\<close>

theorem sanitizePath_twice_witness:
  "sanitizePath (sanitizePath ''.woodpecker/build.yml'' ''.woodpecker/'') ''.woodpecker/'' = ''build''"
  using sanitizePath_twice [of "''.woodpecker/build.yml''" "''.woodpecker/''"]
  by (simp add: sanitizePath_build_yml suffix_to_prefix)

text \<open>
  Claim C8 as stated fails: \<open>a.yml.yml\<close> is sanitized to \<open>a.yml\<close>, and that to \<open>a\<close>.
\<close>

theorem sanitizePath_not_idempotent:
  "sanitizePath (sanitizePath ''a.yml.yml'' ''conf'') ''conf'' \<noteq> sanitizePath ''a.yml.yml'' ''conf''"
  by (simp add: sanitizePath_def TrimSuffix_def TrimPrefix_def suffix_to_prefix)

subsection \<open>The dependency resolver\<close>



lemma contains_itemNames: "containsItemWithName name items \<longleftrightarrow> name \<in> itemNames items"
  by (simp add: containsItemWithName_iff itemNames_def)

lemma itemNames_itemsToRemove:
  "itemNames (itemsToRemove items) =
     {Proc_Name (Proc i) | i. i \<in> set items \<and> \<not> set (DependsOn i) \<subseteq> itemNames items}"
  by (auto simp: itemNames_def itemsToRemove_def containsItemWithName_iff split: if_splits)

lemma itemsToRemove_empty:
  "itemsToRemove items = [] \<longleftrightarrow> (\<forall>i \<in> set items. set (DependsOn i) \<subseteq> itemNames items)"
proof -
  have "itemsToRemove items = [] \<longleftrightarrow> itemNames (itemsToRemove items) = {}"
    by (simp add: itemNames_def)
  then show ?thesis
    by (auto simp: itemNames_itemsToRemove)
qed

lemma itemNames_prune: "itemNames (prune items) = itemNames items - itemNames (itemsToRemove items)"
  by (auto simp: prune_def itemNames_def containsItemWithName_iff)

lemma closed_avoids_removed:
  assumes "closedNames items S"
  shows "S \<inter> itemNames (itemsToRemove items) = {}"
  using assms unfolding closedNames_def itemNames_itemsToRemove by blast

lemma closedNames_prune: "closedNames (prune items) S \<longleftrightarrow> closedNames items S"
proof
  assume c: "closedNames (prune items) S"
  have sub: "S \<subseteq> itemNames items - itemNames (itemsToRemove items)"
    using c by (simp add: closedNames_def itemNames_prune)
  have "set (DependsOn i) \<subseteq> S" if "i \<in> set items" "Proc_Name (Proc i) \<in> S" for i
  proof -
    have "Proc_Name (Proc i) \<notin> itemNames (itemsToRemove items)"
      using sub that(2) by blast
    then have "i \<in> set (prune items)"
      using that(1) by (simp add: prune_def contains_itemNames)
    then show ?thesis
      using c that(2) by (simp add: closedNames_def)
  qed
  then show "closedNames items S"
    using sub by (auto simp: closedNames_def)
next
  assume c: "closedNames items S"
  have "S \<subseteq> itemNames (prune items)"
    using c closed_avoids_removed [OF c] by (auto simp: itemNames_prune closedNames_def)
  moreover have "set (prune items) \<subseteq> set items"
    by (simp add: prune_def)
  ultimately show "closedNames (prune items) S"
    using c unfolding closedNames_def by blast
qed

lemma filter_prune:
  "filter (\<lambda>i. Proc_Name (Proc i) \<in> \<Union>{S. closedNames items S}) (prune items)
       = filter (\<lambda>i. Proc_Name (Proc i) \<in> \<Union>{S. closedNames items S}) items"
proof -
  have "Proc_Name (Proc i) \<notin> itemNames (itemsToRemove items)"
    if "Proc_Name (Proc i) \<in> \<Union>{S. closedNames items S}" for i
    using that closed_avoids_removed by blast
  then show ?thesis
    unfolding prune_def filter_filter contains_itemNames
    by (intro filter_cong) auto
qed

lemma filterItems_closed:
  "filterItemsWithMissingDependencies items =
     filter (\<lambda>i. Proc_Name (Proc i) \<in> \<Union>{S. closedNames items S}) items"
proof (induction items rule: filterItemsWithMissingDependencies.induct)
  case (1 items)
  show ?case
  proof (cases "length (itemsToRemove items) > 0")
    case True
    have "filterItemsWithMissingDependencies items = filterItemsWithMissingDependencies (prune items)"
      using True by (subst filterItemsWithMissingDependencies.simps) (simp add: prune_def)
    also have "\<dots> = filter (\<lambda>i. Proc_Name (Proc i) \<in> \<Union>{S. closedNames (prune items) S}) (prune items)"
      using "1.IH" [OF True] by (simp add: prune_def)
    also have "\<dots> = filter (\<lambda>i. Proc_Name (Proc i) \<in> \<Union>{S. closedNames items S}) (prune items)"
      by (simp add: closedNames_prune)
    also have "\<dots> = filter (\<lambda>i. Proc_Name (Proc i) \<in> \<Union>{S. closedNames items S}) items"
      by (rule filter_prune)
    finally show ?thesis .
  next
    case False
    then have "closedNames items (itemNames items)"
      by (simp add: itemsToRemove_empty closedNames_def)
    then have "\<forall>i \<in> set items. Proc_Name (Proc i) \<in> \<Union>{S. closedNames items S}"
      by (auto simp: itemNames_def)
    then have "filter (\<lambda>i. Proc_Name (Proc i) \<in> \<Union>{S. closedNames items S}) items = items"
      by (simp add: filter_id_conv)
    moreover have "filterItemsWithMissingDependencies items = items"
      using False by (subst filterItemsWithMissingDependencies.simps) simp
    ultimately show ?thesis by simp
  qed
qed

lemma closedNames_Union: "closedNames items (\<Union>{S. closedNames items S})"
  unfolding closedNames_def by blast

lemma itemNames_filterItems:
  "itemNames (filterItemsWithMissingDependencies items) = \<Union>{S. closedNames items S}"
proof
  show "itemNames (filterItemsWithMissingDependencies items) \<subseteq> \<Union>{S. closedNames items S}"
    by (subst filterItems_closed) (auto simp: itemNames_def)
next
  show "\<Union>{S. closedNames items S} \<subseteq> itemNames (filterItemsWithMissingDependencies items)"
  proof
    fix x assume x: "x \<in> \<Union>{S. closedNames items S}"
    then have "x \<in> itemNames items"
      unfolding closedNames_def by blast
    then obtain i where "i \<in> set items" "Proc_Name (Proc i) = x"
      by (auto simp: itemNames_def)
    then have "i \<in> set (filter (\<lambda>i. Proc_Name (Proc i) \<in> \<Union>{S. closedNames items S}) items)"
      using x by simp
    then show "x \<in> itemNames (filterItemsWithMissingDependencies items)"
      using \<open>Proc_Name (Proc i) = x\<close> unfolding filterItems_closed [of items] itemNames_def
      by (metis (no_types, lifting) image_eqI set_map)
  qed
qed

lemma survivors_distinct:
  assumes "distinct (map (\<lambda>i. Proc_Name (Proc i)) items)" and "i \<in> set items"
  shows "i \<in> greatestSurvivors items \<longleftrightarrow> Proc_Name (Proc i) \<in> \<Union>{S. closedNames items S}"
proof
  assume "i \<in> greatestSurvivors items"
  then obtain T where T: "survivable items T" "i \<in> T"
    by (auto simp: greatestSurvivors_def)
  have "closedNames items ((\<lambda>i. Proc_Name (Proc i)) ` T)"
    unfolding closedNames_def
  proof (intro conjI ballI impI)
    show "(\<lambda>i. Proc_Name (Proc i)) ` T \<subseteq> itemNames items"
      using T(1) by (auto simp: survivable_def itemNames_def)
  next
    fix k assume k: "k \<in> set items" "Proc_Name (Proc k) \<in> (\<lambda>i. Proc_Name (Proc i)) ` T"
    then obtain j where j: "j \<in> T" "Proc_Name (Proc j) = Proc_Name (Proc k)"
      by auto
    then have "j \<in> set items"
      using T(1) by (auto simp: survivable_def)
    then have "j = k"
      using assms(1) k(1) j(2) by (auto simp: distinct_map inj_on_def)
    then have "\<forall>dep \<in> set (DependsOn k). \<exists>j \<in> T. Proc_Name (Proc j) = dep"
      using T(1) j(1) unfolding survivable_def by blast
    then show "set (DependsOn k) \<subseteq> (\<lambda>i. Proc_Name (Proc i)) ` T"
      by force
  qed
  then show "Proc_Name (Proc i) \<in> \<Union>{S. closedNames items S}"
    using T(2) by blast
next
  assume "Proc_Name (Proc i) \<in> \<Union>{S. closedNames items S}"
  then obtain S where S: "closedNames items S" "Proc_Name (Proc i) \<in> S"
    by auto
  have "survivable items {k \<in> set items. Proc_Name (Proc k) \<in> S}"
    using S(1) unfolding survivable_def closedNames_def itemNames_def by auto blast
  then show "i \<in> greatestSurvivors items"
    using S(2) assms(2) by (auto simp: greatestSurvivors_def)
qed

text \<open>
  Claim C2, as amended. The resolver decides survival per name: it returns, in their
  original order, the items whose name lies in the greatest closed set of names (the
  names of the result form a closed set, and every closed set is contained in it).
  Nothing is called that could fail. When the names of the items are pairwise
  distinct, this is the greatest fixed point of the rule on items: the result
  consists of the items of the greatest set of items that can survive.
\<close>

theorem filterItems_greatest:
  "filterItemsWithMissingDependencies items =
     filter (\<lambda>i. Proc_Name (Proc i) \<in> itemNames (filterItemsWithMissingDependencies items)) items
   \<and> closedNames items (itemNames (filterItemsWithMissingDependencies items))
   \<and> (\<forall>S. closedNames items S \<longrightarrow> S \<subseteq> itemNames (filterItemsWithMissingDependencies items))
   \<and> (distinct (map (\<lambda>i. Proc_Name (Proc i)) items) \<longrightarrow>
        filterItemsWithMissingDependencies items = filter (\<lambda>i. i \<in> greatestSurvivors items) items)"
proof (intro conjI allI impI)
  show "filterItemsWithMissingDependencies items =
     filter (\<lambda>i. Proc_Name (Proc i) \<in> itemNames (filterItemsWithMissingDependencies items)) items"
    unfolding itemNames_filterItems by (rule filterItems_closed)
  show "closedNames items (itemNames (filterItemsWithMissingDependencies items))"
    unfolding itemNames_filterItems by (rule closedNames_Union)
  show "S \<subseteq> itemNames (filterItemsWithMissingDependencies items)" if "closedNames items S" for S
    unfolding itemNames_filterItems using that by blast
  show "filterItemsWithMissingDependencies items = filter (\<lambda>i. i \<in> greatestSurvivors items) items"
    if "distinct (map (\<lambda>i. Proc_Name (Proc i)) items)"
    unfolding filterItems_closed [of items]
    by (rule filter_cong) (simp_all add: survivors_distinct [OF that])
qed

lemma filterItems_cascadeItems:
  "filterItemsWithMissingDependencies cascadeItems = [exampleItem ''d'' 3 []]"
  by (simp add: cascadeItems_def filterItemsWithMissingDependencies.simps itemsToRemove_def exampleItem_def)

lemma filterItems_sameNameItems:
  "filterItemsWithMissingDependencies sameNameItems = []"
  by (simp add: sameNameItems_def filterItemsWithMissingDependencies.simps itemsToRemove_def exampleItem_def)

text \<open>
  The cascade: \<open>b\<close> is removed for its missing dependency \<open>c\<close>, then \<open>a\<close> for its
  dependency \<open>b\<close>; \<open>d\<close> survives.
\<close>

theorem filterItems_greatest_witness:
  "closedNames cascadeItems {''d''}
   \<and> {''d''} \<subseteq> itemNames (filterItemsWithMissingDependencies cascadeItems)
   \<and> distinct (map (\<lambda>i. Proc_Name (Proc i)) cascadeItems)
   \<and> filter (\<lambda>i. i \<in> greatestSurvivors cascadeItems) cascadeItems = [exampleItem ''d'' 3 []]"
proof -
  have c: "closedNames cascadeItems {''d''}"
    by (simp add: closedNames_def cascadeItems_def itemNames_def exampleItem_def)
  have d: "distinct (map (\<lambda>i. Proc_Name (Proc i)) cascadeItems)"
    by (simp add: cascadeItems_def exampleItem_def)
  note t = filterItems_greatest [of cascadeItems]
  from t c have "{''d''} \<subseteq> itemNames (filterItemsWithMissingDependencies cascadeItems)"
    by blast
  moreover from t d
  have "filterItemsWithMissingDependencies cascadeItems
          = filter (\<lambda>i. i \<in> greatestSurvivors cascadeItems) cascadeItems"
    by blast
  then have "filter (\<lambda>i. i \<in> greatestSurvivors cascadeItems) cascadeItems = [exampleItem ''d'' 3 []]"
    by (simp add: filterItems_cascadeItems)
  ultimately show ?thesis
    using c d by simp
qed

text \<open>
  Claim C2 as stated fails on items that share a name: the second item of
  \<open>sameNameItems\<close> has no dependency and survives under the rule on items, but the
  resolver removes it together with the first.
\<close>

theorem filterItems_not_item_fixed_point:
  "filterItemsWithMissingDependencies sameNameItems
     \<noteq> filter (\<lambda>i. i \<in> greatestSurvivors sameNameItems) sameNameItems"
proof -
  have "survivable sameNameItems {exampleItem ''x'' 2 []}"
    by (simp add: survivable_def sameNameItems_def exampleItem_def)
  then have "exampleItem ''x'' 2 [] \<in> greatestSurvivors sameNameItems"
    unfolding greatestSurvivors_def by blast
  then have "exampleItem ''x'' 2 [] \<in> set (filter (\<lambda>i. i \<in> greatestSurvivors sameNameItems) sameNameItems)"
    by (simp add: sameNameItems_def)
  then show ?thesis
    unfolding filterItems_sameNameItems by (metis empty_iff empty_set)
qed

text \<open>
  Claim C9. When an item has a dependency that no item of the list is named after,
  no item of its name is left in the result, whatever the dependencies of the other
  items of that name.
\<close>

theorem removal_by_name:
  assumes "i \<in> set items" and "dep \<in> set (DependsOn i)" and "\<not> containsItemWithName dep items"
  shows "\<not> containsItemWithName (Proc_Name (Proc i)) (filterItemsWithMissingDependencies items)"
proof -
  have "Proc_Name (Proc i) \<in> itemNames (itemsToRemove items)"
    using assms unfolding itemNames_itemsToRemove contains_itemNames by blast
  then have "Proc_Name (Proc i) \<notin> \<Union>{S. closedNames items S}"
    using closed_avoids_removed by blast
  then show ?thesis
    by (simp add: contains_itemNames itemNames_filterItems)
qed

text \<open>The second item of \<open>sameNameItems\<close> has no dependency, and is removed by its name.\<close>

theorem removal_by_name_witness:
  "exampleItem ''x'' 2 [] \<in> set sameNameItems
   \<and> DependsOn (exampleItem ''x'' 2 []) = []
   \<and> \<not> containsItemWithName ''x'' (filterItemsWithMissingDependencies sameNameItems)"
  using removal_by_name [of "exampleItem ''x'' 1 [''missing'']" sameNameItems "''missing''"]
  by (simp add: sameNameItems_def exampleItem_def)

subsection \<open>The body of Build's loop\<close>



lemma Build_axis_eq:
  "Build_axis X b y (items, pidSequence, n) axis =
     (case parsedFor X b y axis pidSequence of
        Inl err \<Rightarrow> Inl err
      | Inr parsed \<Rightarrow>
          (if Stages (Config (builtItem X b y axis pidSequence n parsed)) = []
           then Inr (items, pidSequence, Suc n)
           else Inr (items @ [builtItem X b y axis pidSequence n parsed], pidSequence + 1, Suc n)))"
proof (cases "envsubst_' X b (FileMeta_Data y) (substEnviron X b y axis pidSequence)")
  case (Inl err)
  then show ?thesis
    by (simp add: Build_axis_def parsedFor_def substEnviron_def jobMetadata_def newProc_def)
next
  case substituted: (Inr substituted)
  show ?thesis
  proof (cases "yaml_ParseString X substituted")
    case (Inl err)
    with substituted show ?thesis
      by (simp add: Build_axis_def parsedFor_def substEnviron_def jobMetadata_def newProc_def)
  next
    case parsed: (Inr parsed)
    show ?thesis
    proof (cases "linter_Lint X (Repo_IsTrusted (Repo b)) parsed")
      case (Some lerr)
      with substituted parsed show ?thesis
        by (simp add: Build_axis_def parsedFor_def substEnviron_def jobMetadata_def newProc_def)
    next
      case None
      with substituted parsed show ?thesis
        by (cases "Config_Labels parsed")
           (simp_all add: Build_axis_def parsedFor_def builtItem_def substEnviron_def
              jobMetadata_def newProc_def Let_def)
    qed
  qed
qed

lemma builtItem_sel [simp]:
  "PID (Proc (builtItem X b y axis pidSequence n parsed)) = pidSequence"
  "Proc_Name (Proc (builtItem X b y axis pidSequence n parsed)) =
     sanitizePath (FileMeta_Name y) (Repo_Config (Repo b))"
  "State (Proc (builtItem X b y axis pidSequence n parsed)) =
     (if Constraint_Match X (Branches parsed) (Build_Branch (Curr b)) then StatusPending else StatusSkipped)"
  "Labels (builtItem X b y axis pidSequence n parsed) =
     (case Config_Labels parsed of None \<Rightarrow> Some Map.empty | Some l \<Rightarrow> Some l)"
  "DependsOn (builtItem X b y axis pidSequence n parsed) = Config_DependsOn parsed"
  by (simp_all add: builtItem_def newProc_def Let_def)

subsection \<open>The flattener\<close>

lemma appendItemProcs_spec:
  "\<exists>m'. appendItemProcs (procs, m) items = (procs @ map Proc items, m') \<and> m \<le> m' \<and>
        (\<forall>i \<in> set items. PID (Proc i) \<le> m')"
proof (induction items arbitrary: procs m)
  case Nil
  then show ?case by simp
next
  case (Cons item items)
  obtain m' where m':
    "appendItemProcs (procs @ [Proc item], if m < PID (Proc item) then PID (Proc item) else m) items
       = ((procs @ [Proc item]) @ map Proc items, m')"
    "(if m < PID (Proc item) then PID (Proc item) else m) \<le> m'"
    "\<forall>i \<in> set items. PID (Proc i) \<le> m'"
    using Cons.IH by blast
  from m'(2) have "m \<le> m'" "PID (Proc item) \<le> m'"
    by (simp_all split: if_splits)
  with m'(1,3) show ?case
    by simp
qed

lemma appendSteps_spec:
  "\<exists>new gid'. appendSteps bid item (procs, pid, gid) steps = (procs @ new, pid + int (length steps), gid') \<and>
      sorted_wrt (<) (map PID new) \<and>
      (\<forall>p \<in> set new. pid < PID p \<and> PID p \<le> pid + int (length steps) \<and> stepOf item p)"
proof (induction steps arbitrary: procs pid gid)
  case Nil
  then show ?case by simp
next
  case (Cons step steps)
  define gid1 where "gid1 = (if gid = 0 then pid + 1 else gid)"
  define proc where "proc =
    (if State (Proc item) = StatusSkipped
     then \<lparr>Proc_ID = 0, BuildID = bid, PID = pid + 1, PPID = PID (Proc item), PGID = gid1,
           Proc_Name = Alias step, State = StatusPending, Environ = Map.empty\<rparr>\<lparr>State := StatusSkipped\<rparr>
     else \<lparr>Proc_ID = 0, BuildID = bid, PID = pid + 1, PPID = PID (Proc item), PGID = gid1,
           Proc_Name = Alias step, State = StatusPending, Environ = Map.empty\<rparr>)"
  have unfold: "appendSteps bid item (procs, pid, gid) (step # steps)
                  = appendSteps bid item (procs @ [proc], pid + 1, gid1) steps"
    by (simp add: Let_def proc_def gid1_def)
  have proc: "PID proc = pid + 1" "stepOf item proc"
    by (simp_all add: proc_def stepOf_def)
  obtain new gid' where new:
    "appendSteps bid item (procs @ [proc], pid + 1, gid1) steps
       = ((procs @ [proc]) @ new, pid + 1 + int (length steps), gid')"
    "sorted_wrt (<) (map PID new)"
    "\<forall>p \<in> set new. pid + 1 < PID p \<and> PID p \<le> pid + 1 + int (length steps) \<and> stepOf item p"
    using Cons.IH by blast
  have "appendSteps bid item (procs, pid, gid) (step # steps)
          = (procs @ (proc # new), pid + int (length (step # steps)), gid')"
    using unfold new(1) by simp
  moreover have "sorted_wrt (<) (map PID (proc # new))"
    using new(2,3) proc(1) by auto
  moreover have "\<forall>p \<in> set (proc # new).
      pid < PID p \<and> PID p \<le> pid + int (length (step # steps)) \<and> stepOf item p"
    using new(3) proc by auto
  ultimately show ?case
    by blast
qed

lemma appendStages_spec:
  "\<exists>new pid'. appendStages bid item (procs, pid) stages = (procs @ new, pid') \<and> pid \<le> pid' \<and>
      sorted_wrt (<) (map PID new) \<and>
      (\<forall>p \<in> set new. pid < PID p \<and> PID p \<le> pid' \<and> stepOf item p)"
proof (induction stages arbitrary: procs pid)
  case Nil
  then show ?case by simp
next
  case (Cons stage stages)
  obtain new1 gid' where new1:
    "appendSteps bid item (procs, pid, 0) (Steps stage)
       = (procs @ new1, pid + int (length (Steps stage)), gid')"
    "sorted_wrt (<) (map PID new1)"
    "\<forall>p \<in> set new1. pid < PID p \<and> PID p \<le> pid + int (length (Steps stage)) \<and> stepOf item p"
    using appendSteps_spec by blast
  obtain new2 pid' where new2:
    "appendStages bid item (procs @ new1, pid + int (length (Steps stage))) stages
       = ((procs @ new1) @ new2, pid')"
    "pid + int (length (Steps stage)) \<le> pid'"
    "sorted_wrt (<) (map PID new2)"
    "\<forall>p \<in> set new2. pid + int (length (Steps stage)) < PID p \<and> PID p \<le> pid' \<and> stepOf item p"
    using Cons.IH by blast
  have "appendStages bid item (procs, pid) (stage # stages) = (procs @ (new1 @ new2), pid')"
    using new1(1) new2(1) by simp
  moreover have "pid \<le> pid'"
    using new2(2) by simp
  moreover have "sorted_wrt (<) (map PID (new1 @ new2))"
    using new1(2,3) new2(3,4) by (fastforce simp: sorted_wrt_append)
  moreover have "\<forall>p \<in> set (new1 @ new2). pid < PID p \<and> PID p \<le> pid' \<and> stepOf item p"
    using new1(3) new2(2,4) by fastforce
  ultimately show ?case
    by blast
qed

lemma appendItemSteps_spec:
  "\<exists>new pid'. appendItemSteps bid (procs, pid) items = (procs @ new, pid') \<and> pid \<le> pid' \<and>
      sorted_wrt (<) (map PID new) \<and>
      (\<forall>p \<in> set new. pid < PID p \<and> PID p \<le> pid' \<and> (\<exists>item \<in> set items. stepOf item p))"
proof (induction items arbitrary: procs pid)
  case Nil
  then show ?case by simp
next
  case (Cons item items)
  obtain new1 pid1 where new1:
    "appendStages bid item (procs, pid) (Stages (Config item)) = (procs @ new1, pid1)"
    "pid \<le> pid1"
    "sorted_wrt (<) (map PID new1)"
    "\<forall>p \<in> set new1. pid < PID p \<and> PID p \<le> pid1 \<and> stepOf item p"
    using appendStages_spec by blast
  obtain new2 pid' where new2:
    "appendItemSteps bid (procs @ new1, pid1) items = ((procs @ new1) @ new2, pid')"
    "pid1 \<le> pid'"
    "sorted_wrt (<) (map PID new2)"
    "\<forall>p \<in> set new2. pid1 < PID p \<and> PID p \<le> pid' \<and> (\<exists>item \<in> set items. stepOf item p)"
    using Cons.IH by blast
  have "appendItemSteps bid (procs, pid) (item # items) = (procs @ (new1 @ new2), pid')"
    using new1(1) new2(1) by simp
  moreover have "pid \<le> pid'"
    using new1(2) new2(2) by simp
  moreover have "sorted_wrt (<) (map PID (new1 @ new2))"
    using new1(3,4) new2(3,4) by (fastforce simp: sorted_wrt_append)
  moreover have "\<forall>p \<in> set (new1 @ new2).
      pid < PID p \<and> PID p \<le> pid' \<and> (\<exists>i \<in> set (item # items). stepOf i p)"
    using new1(2,4) new2(2,4) by fastforce
  ultimately show ?case
    by blast
qed

lemma setBuildStepsOnBuild_spec:
  "\<exists>new. Procs (setBuildStepsOnBuild build items) = Procs build @ map Proc items @ new \<and>
      sorted_wrt (<) (map PID new) \<and>
      (\<forall>p \<in> set new. (\<forall>i \<in> set items. PID (Proc i) < PID p) \<and> (\<exists>item \<in> set items. stepOf item p))"
proof -
  obtain m where m:
    "appendItemProcs (Procs build, 0) items = (Procs build @ map Proc items, m)"
    "\<forall>i \<in> set items. PID (Proc i) \<le> m"
    using appendItemProcs_spec by blast
  obtain new pid' where new:
    "appendItemSteps (Build_ID build) (Procs build @ map Proc items, m) items
       = ((Procs build @ map Proc items) @ new, pid')"
    "sorted_wrt (<) (map PID new)"
    "\<forall>p \<in> set new. m < PID p \<and> PID p \<le> pid' \<and> (\<exists>item \<in> set items. stepOf item p)"
    using appendItemSteps_spec by blast
  have "Procs (setBuildStepsOnBuild build items) = Procs build @ map Proc items @ new"
    by (simp add: setBuildStepsOnBuild_def m(1) new(1))
  moreover have "\<forall>p \<in> set new. (\<forall>i \<in> set items. PID (Proc i) < PID p) \<and> (\<exists>item \<in> set items. stepOf item p)"
    using m(2) new(3) by fastforce
  ultimately show ?thesis
    using new(2) by blast
qed

lemma emittedProcs_spec:
  "emittedProcs build items = map Proc items @ stepProcs build items \<and>
   Procs (setBuildStepsOnBuild build items) = Procs build @ emittedProcs build items \<and>
   sorted_wrt (<) (map PID (stepProcs build items)) \<and>
   (\<forall>p \<in> set (stepProcs build items).
      (\<forall>i \<in> set items. PID (Proc i) < PID p) \<and> (\<exists>item \<in> set items. stepOf item p))"
proof -
  obtain new where new:
    "Procs (setBuildStepsOnBuild build items) = Procs build @ map Proc items @ new"
    "sorted_wrt (<) (map PID new)"
    "\<forall>p \<in> set new. (\<forall>i \<in> set items. PID (Proc i) < PID p) \<and> (\<exists>item \<in> set items. stepOf item p)"
    using setBuildStepsOnBuild_spec by blast
  have "stepProcs build items = new" "emittedProcs build items = map Proc items @ new"
    by (simp_all add: stepProcs_def emittedProcs_def new(1))
  then show ?thesis
    using new by simp
qed

subsection \<open>Invariants of Build\<close>

lemma Build_yaml_eq:
  "Build_yaml X b st y =
     (case documentAxes X y of Inl err \<Rightarrow> Inl err | Inr axes \<Rightarrow> Build_axes X b y st axes)"
  by (simp add: Build_yaml_def documentAxes_def split: sum.splits)

lemma Build_axis_cases:
  assumes "Build_axis X b y (items, pid, n) axis = Inr st'"
  obtains parsed where "parsedFor X b y axis pid = Inr parsed"
    and "st' = (items, pid, Suc n) \<or> st' = (items @ [builtItem X b y axis pid n parsed], pid + 1, Suc n)"
  using assms unfolding Build_axis_eq by (auto split: sum.splits if_splits)

lemma Build_axes_invariant:
  assumes "Build_axes X b y (items, pid, n) axes = Inr (items', pid', n')"
    and "Q items pid"
    and step: "\<And>items pid axis n parsed.
           Q items pid \<Longrightarrow> axis \<in> set axes \<Longrightarrow> parsedFor X b y axis pid = Inr parsed \<Longrightarrow>
           Q (items @ [builtItem X b y axis pid n parsed]) (pid + 1)"
  shows "Q items' pid'"
  using assms
proof (induction axes arbitrary: items pid n)
  case Nil
  then show ?case by simp
next
  case (Cons axis axes)
  from Cons.prems(1) obtain st1 where st1:
    "Build_axis X b y (items, pid, n) axis = Inr st1"
    "Build_axes X b y st1 axes = Inr (items', pid', n')"
    by (auto split: sum.splits)
  obtain items1 pid1 n1 where st1_eq: "st1 = (items1, pid1, n1)"
    by (cases st1) auto
  from st1(1) obtain parsed where parsed: "parsedFor X b y axis pid = Inr parsed"
    and alt: "st1 = (items, pid, Suc n) \<or> st1 = (items @ [builtItem X b y axis pid n parsed], pid + 1, Suc n)"
    by (rule Build_axis_cases)
  have "Q items1 pid1"
    using alt st1_eq Cons.prems(2) Cons.prems(3) [OF Cons.prems(2) _ parsed, of n] by auto
  moreover have "\<And>items pid a n parsed.
           Q items pid \<Longrightarrow> a \<in> set axes \<Longrightarrow> parsedFor X b y a pid = Inr parsed \<Longrightarrow>
           Q (items @ [builtItem X b y a pid n parsed]) (pid + 1)"
    using Cons.prems(3) by simp
  ultimately show ?case
    using Cons.IH [of items1 pid1 n1] st1(2) st1_eq by blast
qed

lemma Build_yamls_invariant:
  assumes "Build_yamls X b (items, pid, n) ys = Inr (items', pid', n')"
    and "Q items pid"
    and step: "\<And>items pid y axis n parsed.
           Q items pid \<Longrightarrow> y \<in> set ys \<Longrightarrow> parsedFor X b y axis pid = Inr parsed \<Longrightarrow>
           Q (items @ [builtItem X b y axis pid n parsed]) (pid + 1)"
  shows "Q items' pid'"
  using assms
proof (induction ys arbitrary: items pid n)
  case Nil
  then show ?case by simp
next
  case (Cons y ys)
  from Cons.prems(1) obtain st1 where st1:
    "Build_yaml X b (items, pid, n) y = Inr st1"
    "Build_yamls X b st1 ys = Inr (items', pid', n')"
    by (auto split: sum.splits)
  obtain items1 pid1 n1 where st1_eq: "st1 = (items1, pid1, n1)"
    by (cases st1) auto
  from st1(1) obtain axes where axes: "Build_axes X b y (items, pid, n) axes = Inr (items1, pid1, n1)"
    unfolding Build_yaml_eq st1_eq by (auto split: sum.splits)
  have "Q items1 pid1"
  proof (rule Build_axes_invariant [where Q = Q, OF axes Cons.prems(2)])
    fix items pid axis n parsed
    assume "Q items pid" "parsedFor X b y axis pid = Inr parsed"
    then show "Q (items @ [builtItem X b y axis pid n parsed]) (pid + 1)"
      using Cons.prems(3) by simp
  qed
  moreover have "\<And>items pid z axis n parsed.
           Q items pid \<Longrightarrow> z \<in> set ys \<Longrightarrow> parsedFor X b z axis pid = Inr parsed \<Longrightarrow>
           Q (items @ [builtItem X b z axis pid n parsed]) (pid + 1)"
    using Cons.prems(3) by simp
  ultimately show ?case
    using Cons.IH [of items1 pid1 n1] st1(2) st1_eq by blast
qed

lemma set_sort_ByName [simp]: "set (sort_ByName ys) = set ys"
  by (simp add: sort_ByName_def)

lemma Build_items:
  assumes "Build X b = Inr items"
  obtains items0 pid n where
    "Build_yamls X b ([], 1, 0) (sort_ByName (Yamls b)) = Inr (items0, pid, n)"
    "items = filterItemsWithMissingDependencies items0"
  using assms unfolding Build_def by (auto split: sum.splits)

lemma filterItems_filter:
  "\<exists>P. filterItemsWithMissingDependencies items = filter P items"
  using filterItems_closed by blast

lemma Build_yamls_pids:
  assumes "Build_yamls X b ([], 1, 0) ys = Inr (items, pid, n)"
  shows "sorted_wrt (<) (map (\<lambda>i. PID (Proc i)) items) \<and> (\<forall>i \<in> set items. PID (Proc i) < pid)"
proof (rule Build_yamls_invariant
    [where Q = "\<lambda>items pid. sorted_wrt (<) (map (\<lambda>i. PID (Proc i)) items) \<and>
                    (\<forall>i \<in> set items. PID (Proc i) < pid)", OF assms])
  show "sorted_wrt (<) (map (\<lambda>i. PID (Proc i)) []) \<and> (\<forall>i \<in> set []. PID (Proc i) < 1)"
    by simp
next
  fix items :: "buildItem list" and pid y axis n parsed
  assume "sorted_wrt (<) (map (\<lambda>i. PID (Proc i)) items) \<and> (\<forall>i \<in> set items. PID (Proc i) < pid)"
  then show "sorted_wrt (<) (map (\<lambda>i. PID (Proc i)) (items @ [builtItem X b y axis pid n parsed]))
      \<and> (\<forall>i \<in> set (items @ [builtItem X b y axis pid n parsed]). PID (Proc i) < pid + 1)"
    by (auto simp: sorted_wrt_append)
qed

lemma Build_yamls_provenance:
  assumes "Build_yamls X b ([], 1, 0) ys = Inr (items, pid, n)"
  shows "\<forall>item \<in> set items. \<exists>y \<in> set ys. \<exists>axis n parsed.
           parsedFor X b y axis (PID (Proc item)) = Inr parsed \<and>
           item = builtItem X b y axis (PID (Proc item)) n parsed"
proof (rule Build_yamls_invariant
    [where Q = "\<lambda>items pid. \<forall>item \<in> set items. \<exists>y \<in> set ys. \<exists>axis n parsed.
           parsedFor X b y axis (PID (Proc item)) = Inr parsed \<and>
           item = builtItem X b y axis (PID (Proc item)) n parsed", OF assms])
  show "\<forall>item \<in> set []. \<exists>y \<in> set ys. \<exists>axis n parsed.
           parsedFor X b y axis (PID (Proc item)) = Inr parsed \<and>
           item = builtItem X b y axis (PID (Proc item)) n parsed"
    by simp
next
  fix items :: "buildItem list" and pid y axis n parsed
  assume inv: "\<forall>item \<in> set items. \<exists>y \<in> set ys. \<exists>axis n parsed.
           parsedFor X b y axis (PID (Proc item)) = Inr parsed \<and>
           item = builtItem X b y axis (PID (Proc item)) n parsed"
    and y: "y \<in> set ys" and parsed: "parsedFor X b y axis pid = Inr parsed"
  have "\<exists>z \<in> set ys. \<exists>axis' n' parsed'.
           parsedFor X b z axis' (PID (Proc (builtItem X b y axis pid n parsed))) = Inr parsed' \<and>
           builtItem X b y axis pid n parsed
             = builtItem X b z axis' (PID (Proc (builtItem X b y axis pid n parsed))) n' parsed'"
    using y parsed by (intro bexI [of _ y] exI [of _ axis] exI [of _ n] exI [of _ parsed]) simp_all
  then show "\<forall>item \<in> set (items @ [builtItem X b y axis pid n parsed]). \<exists>y \<in> set ys. \<exists>axis n parsed.
           parsedFor X b y axis (PID (Proc item)) = Inr parsed \<and>
           item = builtItem X b y axis (PID (Proc item)) n parsed"
    using inv by simp
qed

lemma Build_provenance:
  assumes "Build X b = Inr items" and "item \<in> set items"
  shows "\<exists>parsed. itemFromDefinition X b item parsed"
proof -
  from assms(1) obtain items0 pid n where items0:
    "Build_yamls X b ([], 1, 0) (sort_ByName (Yamls b)) = Inr (items0, pid, n)"
    "items = filterItemsWithMissingDependencies items0"
    by (rule Build_items)
  have "item \<in> set items0"
    using assms(2) items0(2) filterItems_filter [of items0] by auto
  then show ?thesis
    using Build_yamls_provenance [OF items0(1)] unfolding itemFromDefinition_def by fastforce
qed

lemma Build_pids:
  assumes "Build X b = Inr items"
  shows "sorted_wrt (<) (map (\<lambda>i. PID (Proc i)) items)"
proof -
  from assms(1) obtain items0 pid n where items0:
    "Build_yamls X b ([], 1, 0) (sort_ByName (Yamls b)) = Inr (items0, pid, n)"
    "items = filterItemsWithMissingDependencies items0"
    by (rule Build_items)
  obtain P where "items = filter P items0"
    using items0(2) filterItems_filter by blast
  moreover have "sorted_wrt (<) (map (\<lambda>i. PID (Proc i)) items0)"
    using Build_yamls_pids [OF items0(1)] by simp
  ultimately show ?thesis
    by (simp add: sorted_wrt_map sorted_wrt_filter)
qed

lemma Build_pids_inj:
  assumes "Build X b = Inr items" and "i \<in> set items" and "j \<in> set items"
    and "PID (Proc i) = PID (Proc j)"
  shows "i = j"
proof -
  have "distinct (map (\<lambda>i. PID (Proc i)) items)"
    using Build_pids [OF assms(1)] strict_sorted_iff by blast
  then have "inj_on (\<lambda>i. PID (Proc i)) (set items)"
    by (simp add: distinct_map)
  then show ?thesis
    using assms(2-4) by (auto dest: inj_onD)
qed

text \<open>
  Claim C1. For a successful plan, what setBuildStepsOnBuild appends to the process
  list of the build is the descriptors of the items followed by those of the steps,
  and the PIDs of these descriptors are strictly increasing in the order of the
  list; so no two of them have the same PID.
\<close>

theorem pids_strictly_increasing:
  assumes "Build X b = Inr items"
  shows "Procs (setBuildStepsOnBuild build items) = Procs build @ emittedProcs build items \<and>
         emittedProcs build items = map Proc items @ stepProcs build items \<and>
         sorted_wrt (<) (map PID (emittedProcs build items)) \<and>
         distinct (map PID (emittedProcs build items))"
proof -
  note spec = emittedProcs_spec [of build items]
  have items: "sorted_wrt (<) (map PID (map Proc items))"
    using Build_pids [OF assms] by (simp add: comp_def)
  have "sorted_wrt (<) (map PID (map Proc items @ stepProcs build items))"
    unfolding map_append sorted_wrt_append using items spec by auto
  then have sorted: "sorted_wrt (<) (map PID (emittedProcs build items))"
    using spec by simp
  then have "distinct (map PID (emittedProcs build items))"
    using strict_sorted_iff by blast
  with sorted spec show ?thesis
    by simp
qed

subsection \<open>Errors, states, labels, names and the substitution environment\<close>

lemma axisFails_iff: "axisFails X b y pid axis err \<longleftrightarrow> parsedFor X b y axis pid = Inl err"
  by (auto simp: axisFails_def parsedFor_def split: sum.splits option.splits)

lemma Build_axes_append:
  "Build_axes X b y st (axes1 @ axes2) =
     (case Build_axes X b y st axes1 of Inl err \<Rightarrow> Inl err | Inr st' \<Rightarrow> Build_axes X b y st' axes2)"
  by (induction axes1 arbitrary: st) (auto split: sum.splits)

lemma Build_yamls_append:
  "Build_yamls X b st (ys1 @ ys2) =
     (case Build_yamls X b st ys1 of Inl err \<Rightarrow> Inl err | Inr st' \<Rightarrow> Build_yamls X b st' ys2)"
  by (induction ys1 arbitrary: st) (auto split: sum.splits)

lemma documentFails_Build_yaml:
  assumes "documentFails X b st y err"
  shows "Build_yaml X b st y = Inl err"
  using assms unfolding documentFails_def
proof (elim disjE exE conjE)
  assume "matrix_ParseString X (FileMeta_Data y) = Inl err"
  then show ?thesis
    by (simp add: Build_yaml_def)
next
  fix axes1 axis axes2 items pid n
  assume axes: "documentAxes X y = Inr (axes1 @ axis # axes2)"
    and before: "Build_axes X b y st axes1 = Inr (items, pid, n)"
    and fails: "axisFails X b y pid axis err"
  have "Build_axis X b y (items, pid, n) axis = Inl err"
    using fails unfolding axisFails_iff Build_axis_eq by simp
  then show ?thesis
    unfolding Build_yaml_eq axes by (simp add: Build_axes_append before)
qed

lemma Build_axes_passed:
  assumes "Build_axes X b y st axes = Inr st'"
  shows "\<forall>axis \<in> set axes. \<exists>pid parsed. parsedFor X b y axis pid = Inr parsed"
  using assms
proof (induction axes arbitrary: st)
  case Nil
  then show ?case by simp
next
  case (Cons axis axes)
  obtain items pid n where st: "st = (items, pid, n)"
    by (cases st) auto
  from Cons.prems obtain st1 where st1:
    "Build_axis X b y (items, pid, n) axis = Inr st1" "Build_axes X b y st1 axes = Inr st'"
    unfolding st by (auto split: sum.splits)
  from st1(1) obtain parsed where "parsedFor X b y axis pid = Inr parsed"
    by (rule Build_axis_cases)
  then show ?case
    using Cons.IH [OF st1(2)] by auto
qed

lemma Build_yamls_passed:
  assumes "Build_yamls X b st ys = Inr st'"
  shows "\<forall>y \<in> set ys. \<exists>axes. documentAxes X y = Inr axes \<and>
           (\<forall>axis \<in> set axes. \<exists>pid parsed. parsedFor X b y axis pid = Inr parsed)"
  using assms
proof (induction ys arbitrary: st)
  case Nil
  then show ?case by simp
next
  case (Cons y ys)
  from Cons.prems obtain st1 where st1:
    "Build_yaml X b st y = Inr st1" "Build_yamls X b st1 ys = Inr st'"
    by (auto split: sum.splits)
  from st1(1) obtain axes where axes: "documentAxes X y = Inr axes" "Build_axes X b y st axes = Inr st1"
    unfolding Build_yaml_eq by (auto split: sum.splits)
  have "\<exists>axes. documentAxes X y = Inr axes \<and>
           (\<forall>axis \<in> set axes. \<exists>pid parsed. parsedFor X b y axis pid = Inr parsed)"
    using axes(1) Build_axes_passed [OF axes(2)] by blast
  then show ?case
    using Cons.IH [OF st1(2)] by simp
qed

text \<open>
  Claim C5. When the documents before some document are processed and that document
  fails (its matrix does not parse, or one of its axes fails in substitution,
  parsing or linting), Build returns that error and no item: nothing of the items
  collected so far. Conversely a plan is returned only when the matrix of every
  document parsed and every axis of every document passed substitution, parsing
  and linting. The compiler has no error result in this code.
\<close>

theorem Build_aborts:
  "(sort_ByName (Yamls b) = ys1 @ y # ys2 \<and>
    Build_yamls X b ([], 1, 0) ys1 = Inr st \<and>
    documentFails X b st y err
      \<longrightarrow> Build X b = Inl err)
   \<and> (\<forall>items. Build X b = Inr items \<longrightarrow>
         (\<forall>y \<in> set (Yamls b). \<exists>axes. documentAxes X y = Inr axes \<and>
            (\<forall>axis \<in> set axes. \<exists>pid parsed. parsedFor X b y axis pid = Inr parsed)))"
proof (intro conjI impI allI)
  assume a: "sort_ByName (Yamls b) = ys1 @ y # ys2 \<and>
    Build_yamls X b ([], 1, 0) ys1 = Inr st \<and> documentFails X b st y err"
  then have "Build_yaml X b st y = Inl err"
    by (simp add: documentFails_Build_yaml)
  then have "Build_yamls X b ([], 1, 0) (ys1 @ y # ys2) = Inl err"
    using a by (simp add: Build_yamls_append)
  then show "Build X b = Inl err"
    using a by (simp add: Build_def)
next
  fix items
  assume "Build X b = Inr items"
  then obtain items0 pid n where
    "Build_yamls X b ([], 1, 0) (sort_ByName (Yamls b)) = Inr (items0, pid, n)"
    by (rule Build_items)
  from Build_yamls_passed [OF this]
  show "\<forall>y \<in> set (Yamls b). \<exists>axes. documentAxes X y = Inr axes \<and>
            (\<forall>axis \<in> set axes. \<exists>pid parsed. parsedFor X b y axis pid = Inr parsed)"
    by simp
qed

text \<open>
  Claim C4. In a successful plan, every step descriptor that the flattener emits has
  exactly one owning item in the plan (the item whose PID is its PPID), built from
  the parsed definition of a document; the item is in the plan with its compiled
  configuration whether or not the branch filter matched, its descriptor is Skipped
  exactly when the filter of that definition does not match the branch of the
  current build, the step is Skipped exactly then too, and it is Pending otherwise.
\<close>

theorem steps_skipped_iff:
  assumes "Build X b = Inr items" and "p \<in> set (stepProcs build items)"
  shows "\<exists>item \<in> set items.
           PPID p = PID (Proc item) \<and>
           (\<forall>other \<in> set items. PID (Proc other) = PPID p \<longrightarrow> other = item) \<and>
           (\<exists>parsed. itemFromDefinition X b item parsed) \<and>
           (\<forall>parsed. itemFromDefinition X b item parsed \<longrightarrow>
              (State (Proc item) = StatusSkipped
                 \<longleftrightarrow> \<not> Constraint_Match X (Branches parsed) (Build_Branch (Curr b))) \<and>
              (State p = StatusSkipped
                 \<longleftrightarrow> \<not> Constraint_Match X (Branches parsed) (Build_Branch (Curr b)))) \<and>
           (State p = StatusSkipped \<or> State p = StatusPending)"
proof -
  from assms(2) obtain item where item: "item \<in> set items" "stepOf item p"
    using emittedProcs_spec [of build items] by blast
  have ppid: "PPID p = PID (Proc item)"
    using item(2) by (simp add: stepOf_def)
  have unique: "\<forall>other \<in> set items. PID (Proc other) = PPID p \<longrightarrow> other = item"
    using Build_pids_inj [OF assms(1) _ item(1)] ppid by auto
  have ex: "\<exists>parsed. itemFromDefinition X b item parsed"
    using Build_provenance [OF assms(1) item(1)] .
  have iff: "(State (Proc item) = StatusSkipped
                 \<longleftrightarrow> \<not> Constraint_Match X (Branches parsed) (Build_Branch (Curr b))) \<and>
             (State p = StatusSkipped
                 \<longleftrightarrow> \<not> Constraint_Match X (Branches parsed) (Build_Branch (Curr b)))"
    if "itemFromDefinition X b item parsed" for parsed
  proof -
    from that have "State (Proc item) =
      (if Constraint_Match X (Branches parsed) (Build_Branch (Curr b)) then StatusPending else StatusSkipped)"
      unfolding itemFromDefinition_def by (metis builtItem_sel(3))
    then show ?thesis
      using item(2) by (simp add: stepOf_def)
  qed
  have "State p = StatusSkipped \<or> State p = StatusPending"
    using item(2) by (simp add: stepOf_def)
  with ppid unique ex iff item(1) show ?thesis
    by blast
qed

text \<open>
  Claim C10. Every item of a successful plan has a Labels map that is not nil: it is
  the map of the parsed definition the item was built from, and the empty map when
  that definition has none.
\<close>

theorem labels_never_nil:
  assumes "Build X b = Inr items" and "item \<in> set items"
  shows "Labels item \<noteq> None \<and>
         (\<exists>parsed. itemFromDefinition X b item parsed) \<and>
         (\<forall>parsed. itemFromDefinition X b item parsed \<longrightarrow>
            Labels item = (case Config_Labels parsed of None \<Rightarrow> Some Map.empty | Some l \<Rightarrow> Some l))"
proof -
  have ex: "\<exists>parsed. itemFromDefinition X b item parsed"
    using Build_provenance [OF assms] .
  have eq: "Labels item = (case Config_Labels parsed of None \<Rightarrow> Some Map.empty | Some l \<Rightarrow> Some l)"
    if "itemFromDefinition X b item parsed" for parsed
    using that unfolding itemFromDefinition_def by (metis builtItem_sel(4))
  from ex eq have "Labels item \<noteq> None"
    by (auto split: option.splits)
  with ex eq show ?thesis
    by blast
qed

lemma Build_axes_names:
  assumes "Build_axes X b y (items, pid, n) axes = Inr (items', pid', n')"
  shows "\<exists>new. items' = items @ new \<and> length new \<le> length axes \<and>
               (\<forall>i \<in> set new. Proc_Name (Proc i) = docName b y)"
  using assms
proof (induction axes arbitrary: items pid n)
  case Nil
  then show ?case by simp
next
  case (Cons axis axes)
  from Cons.prems obtain st1 where st1:
    "Build_axis X b y (items, pid, n) axis = Inr st1"
    "Build_axes X b y st1 axes = Inr (items', pid', n')"
    by (auto split: sum.splits)
  from st1(1) obtain parsed where
    alt: "st1 = (items, pid, Suc n) \<or> st1 = (items @ [builtItem X b y axis pid n parsed], pid + 1, Suc n)"
    by (rule Build_axis_cases)
  then show ?case
  proof
    assume "st1 = (items, pid, Suc n)"
    then obtain new where "items' = items @ new" "length new \<le> length axes"
      "\<forall>i \<in> set new. Proc_Name (Proc i) = docName b y"
      using Cons.IH st1(2) by blast
    then show ?thesis
      by (intro exI [of _ new]) simp
  next
    assume "st1 = (items @ [builtItem X b y axis pid n parsed], pid + 1, Suc n)"
    then obtain new where new: "items' = (items @ [builtItem X b y axis pid n parsed]) @ new"
      "length new \<le> length axes" "\<forall>i \<in> set new. Proc_Name (Proc i) = docName b y"
      using Cons.IH st1(2) by blast
    then show ?thesis
      by (intro exI [of _ "builtItem X b y axis pid n parsed # new"]) (simp add: docName_def)
  qed
qed

lemma Build_yamls_names:
  assumes "Build_yamls X b (items, pid, n) ys = Inr (items', pid', n')"
    and "\<forall>y \<in> set ys. \<forall>axes. matrix_ParseString X (FileMeta_Data y) = Inr axes \<longrightarrow> length axes \<le> 1"
    and "distinct (map (docName b) ys)"
    and "distinct (map (\<lambda>i. Proc_Name (Proc i)) items)"
    and "\<forall>i \<in> set items. Proc_Name (Proc i) \<notin> docName b ` set ys"
  shows "distinct (map (\<lambda>i. Proc_Name (Proc i)) items')"
  using assms
proof (induction ys arbitrary: items pid n)
  case Nil
  then show ?case by simp
next
  case (Cons y ys)
  from Cons.prems(1) obtain st1 where st1:
    "Build_yaml X b (items, pid, n) y = Inr st1"
    "Build_yamls X b st1 ys = Inr (items', pid', n')"
    by (auto split: sum.splits)
  obtain items1 pid1 n1 where st1_eq: "st1 = (items1, pid1, n1)"
    by (cases st1) auto
  from st1(1) obtain axes where axes:
    "documentAxes X y = Inr axes" "Build_axes X b y (items, pid, n) axes = Inr (items1, pid1, n1)"
    unfolding Build_yaml_eq st1_eq by (auto split: sum.splits)
  have "length axes \<le> 1"
    using axes(1) Cons.prems(2) by (auto simp: documentAxes_def split: sum.splits if_splits)
  then obtain new where new: "items1 = items @ new" "length new \<le> 1"
    "\<forall>i \<in> set new. Proc_Name (Proc i) = docName b y"
    using Build_axes_names [OF axes(2)] by fastforce
  have "distinct (map (\<lambda>i. Proc_Name (Proc i)) new)"
    using new(2) by (cases new) auto
  then have d1: "distinct (map (\<lambda>i. Proc_Name (Proc i)) items1)"
    using new(1,3) Cons.prems(4,5) by auto
  have d2: "\<forall>i \<in> set items1. Proc_Name (Proc i) \<notin> docName b ` set ys"
    using new(1,3) Cons.prems(3,5) by auto
  show ?case
    using Cons.IH [of items1 pid1 n1] st1(2) st1_eq Cons.prems(2,3) d1 d2 by simp
qed

lemma distinct_docNames_sort:
  "distinct (map (docName b) (sort_ByName ys)) \<longleftrightarrow> distinct (map (docName b) ys)"
  by (simp add: distinct_map sort_ByName_def)

text \<open>
  Claim C3, as amended. In a successful plan the name of every item is the sanitized
  name of the document it was built from, whatever the axis; and the names of the
  items are pairwise distinct when the sanitized names of the documents are
  pairwise distinct and no matrix has more than one axis.
\<close>

theorem item_names:
  assumes "Build X b = Inr items"
  shows "(\<forall>i \<in> set items. \<exists>y \<in> set (Yamls b). \<exists>axis n parsed.
            i = builtItem X b y axis (PID (Proc i)) n parsed \<and>
            Proc_Name (Proc i) = sanitizePath (FileMeta_Name y) (Repo_Config (Repo b)))
         \<and> (distinct (map (\<lambda>y. sanitizePath (FileMeta_Name y) (Repo_Config (Repo b))) (Yamls b)) \<and>
            (\<forall>y \<in> set (Yamls b). \<forall>axes.
               matrix_ParseString X (FileMeta_Data y) = Inr axes \<longrightarrow> length axes \<le> 1)
              \<longrightarrow> distinct (map (\<lambda>i. Proc_Name (Proc i)) items))"
proof (intro conjI ballI impI)
  fix i assume "i \<in> set items"
  from Build_provenance [OF assms this]
  obtain parsed where "itemFromDefinition X b i parsed"
    by blast
  then obtain y axis n where y: "y \<in> set (Yamls b)" "i = builtItem X b y axis (PID (Proc i)) n parsed"
    unfolding itemFromDefinition_def by blast
  from y(2) have "Proc_Name (Proc i) = sanitizePath (FileMeta_Name y) (Repo_Config (Repo b))"
    by (metis builtItem_sel(2))
  with y show "\<exists>y \<in> set (Yamls b). \<exists>axis n parsed.
            i = builtItem X b y axis (PID (Proc i)) n parsed \<and>
            Proc_Name (Proc i) = sanitizePath (FileMeta_Name y) (Repo_Config (Repo b))"
    by blast
next
  assume h: "distinct (map (\<lambda>y. sanitizePath (FileMeta_Name y) (Repo_Config (Repo b))) (Yamls b)) \<and>
            (\<forall>y \<in> set (Yamls b). \<forall>axes.
               matrix_ParseString X (FileMeta_Data y) = Inr axes \<longrightarrow> length axes \<le> 1)"
  from assms obtain items0 pid n where items0:
    "Build_yamls X b ([], 1, 0) (sort_ByName (Yamls b)) = Inr (items0, pid, n)"
    "items = filterItemsWithMissingDependencies items0"
    by (rule Build_items)
  have "distinct (map (docName b) (sort_ByName (Yamls b)))"
    using h unfolding distinct_docNames_sort by (simp add: docName_def [abs_def])
  then have "distinct (map (\<lambda>i. Proc_Name (Proc i)) items0)"
    using Build_yamls_names [OF items0(1)] h by simp
  moreover obtain P where "items = filter P items0"
    using items0(2) filterItems_filter by blast
  ultimately show "distinct (map (\<lambda>i. Proc_Name (Proc i)) items)"
    by (simp add: distinct_map_filter)
qed

text \<open>
  Claim C6, as amended. The environment that Build hands to the substitution is
  resolved by last writer wins with the matrix axis last: the value of the axis, else
  that of the legacy metadata environment, else that of the metadata environment.
  The caller's extra environment (Envs) takes no part in it: changing Envs changes
  neither this environment nor the outcome of substitution, parsing and linting.
  (Envs is only passed on to the compiler.)
\<close>

theorem substitution_environment:
  "substEnviron X b y axis pid key =
     (case axis key of
        Some v \<Rightarrow> Some v
      | None \<Rightarrow> (case Metadata_EnvironDrone X (jobMetadata X b y axis pid) key of
                   Some v \<Rightarrow> Some v
                 | None \<Rightarrow> Metadata_Environ X (jobMetadata X b y axis pid) key))
   \<and> substEnviron X (b\<lparr>Envs := extra\<rparr>) y axis pid = substEnviron X b y axis pid
   \<and> parsedFor X (b\<lparr>Envs := extra\<rparr>) y axis pid = parsedFor X b y axis pid"
proof -
  have m: "jobMetadata X (b\<lparr>Envs := extra\<rparr>) y axis pid = jobMetadata X b y axis pid"
    by (simp add: jobMetadata_def newProc_def)
  have e: "substEnviron X (b\<lparr>Envs := extra\<rparr>) y axis pid = substEnviron X b y axis pid"
    by (simp add: substEnviron_def environmentVariables_def m)
  have "parsedFor X (b\<lparr>Envs := extra\<rparr>) y axis pid = parsedFor X b y axis pid"
    by (simp add: parsedFor_def e envsubst_'_def split: sum.splits)
  moreover have "substEnviron X b y axis pid key =
     (case axis key of
        Some v \<Rightarrow> Some v
      | None \<Rightarrow> (case Metadata_EnvironDrone X (jobMetadata X b y axis pid) key of
                   Some v \<Rightarrow> Some v
                 | None \<Rightarrow> Metadata_Environ X (jobMetadata X b y axis pid) key))"
    by (simp add: substEnviron_def environmentVariables_def Let_def map_add_def split: option.splits)
  ultimately show ?thesis
    using e by simp
qed

text \<open>
  Claim C7. The function that envsubst\_ hands to the placeholder engine returns, for
  a variable whose value contains a newline, the \<open>%q\<close> form of the value; for any
  other variable of the environment its value; and for a variable that is not in
  the environment the empty string. It has no error result.
\<close>

theorem lookup_quotes_newlines:
  "(\<forall>v. environ name = Some v \<and> CHR 0x0A \<in> set v \<longrightarrow> envsubst_lookup X environ name = fmt_Sprintf_q X v)
   \<and> (\<forall>v. environ name = Some v \<and> CHR 0x0A \<notin> set v \<longrightarrow> envsubst_lookup X environ name = v)
   \<and> (environ name = None \<longrightarrow> envsubst_lookup X environ name = [])
   \<and> envsubst_' X b y environ = envsubst_Eval X y (envsubst_lookup X environ)"
  by (simp add: envsubst_lookup_def envsubst_'_def)

subsection \<open>The example planner, evaluated\<close>

lemma example_parsedFor:
  assumes "text \<noteq> ''${''" "text \<noteq> ''bad yaml''" "text \<noteq> ''privileged''"
  shows "parsedFor exampleExternals (exampleBuilder yamls) (doc name text) axis pid = Inr (exampleParse text)"
  using assms
  by (simp add: parsedFor_def envsubst_'_def exampleExternals_def doc_def exampleParse_def)

lemma example_Stages:
  "Stages (Config (builtItem exampleExternals b y axis pid n (exampleParse text)))
     = (if text = ''empty'' then [] else exampleStages)"
  by (simp add: builtItem_def toInternalRepresentation_def exampleExternals_def exampleParse_def Let_def)

lemma example_documentAxes:
  "documentAxes exampleExternals (doc name text)
     = (if text = ''bad matrix'' then Inl (Error ''matrix'')
        else if text = ''two axes'' then Inr [[''GO'' \<mapsto> ''1.1''], [''GO'' \<mapsto> ''1.2'']]
        else Inr [Map.empty])"
  by (simp add: documentAxes_def exampleExternals_def doc_def)

lemma sort_twoDocs:
  "sort_ByName twoDocs = [doc ''.woodpecker/build.yml'' ''plain'', doc ''.woodpecker/test.yml'' ''release only'']"
  by (simp add: sort_ByName_def twoDocs_def doc_def less_eq_char_def less_char_def)

lemma Build_yamls_twoDocs:
  "Build_yamls exampleExternals (exampleBuilder twoDocs) ([], 1, 0) (sort_ByName twoDocs)
     = Inr (twoDocsPlan, 3, 2)"
  by (simp add: sort_twoDocs Build_yaml_eq example_documentAxes Build_axis_eq example_parsedFor
        example_Stages exampleStages_def twoDocsPlan_def)

lemma filterItems_twoDocsPlan: "filterItemsWithMissingDependencies twoDocsPlan = twoDocsPlan"
  by (simp add: filterItemsWithMissingDependencies.simps itemsToRemove_def twoDocsPlan_def exampleParse_def)

lemma Build_twoDocs: "Build exampleExternals (exampleBuilder twoDocs) = Inr twoDocsPlan"
  by (simp add: Build_def exampleBuilder_def [of twoDocs, THEN arg_cong [of _ _ Yamls]]
        Build_yamls_twoDocs filterItems_twoDocsPlan)


lemma example_State:
  "State (Proc (builtItem exampleExternals (exampleBuilder yamls) y axis pid n (exampleParse text)))
     = (if text = ''release only'' then StatusSkipped else StatusPending)"
  by (simp add: exampleExternals_def exampleBuilder_def exampleParse_def exampleBuild_def)

lemma emittedProcs_twoDocs: "map PID (emittedProcs exampleBuild twoDocsPlan) = [1, 2, 3, 4, 5, 6, 7, 8]"
  by (simp add: emittedProcs_def setBuildStepsOnBuild_def twoDocsPlan_def example_Stages
        exampleStages_def exampleBuild_def Let_def)

lemma stepProcs_twoDocs:
  "map (\<lambda>p. (PID p, PPID p, PGID p, Proc_Name p, State p)) (stepProcs exampleBuild twoDocsPlan) =
     [(3, 1, 3, ''clone'', StatusPending), (4, 1, 4, ''build'', StatusPending),
      (5, 1, 4, ''test'', StatusPending), (6, 2, 6, ''clone'', StatusSkipped),
      (7, 2, 7, ''build'', StatusSkipped), (8, 2, 7, ''test'', StatusSkipped)]"
  by (simp add: stepProcs_def setBuildStepsOnBuild_def twoDocsPlan_def example_Stages example_State
        exampleStages_def exampleBuild_def Let_def del: builtItem_sel(3))

lemma skippedStep_emitted: "skippedStep \<in> set (stepProcs exampleBuild twoDocsPlan)"
  by (simp add: stepProcs_def setBuildStepsOnBuild_def twoDocsPlan_def example_Stages example_State
        exampleStages_def exampleBuild_def skippedStep_def Let_def del: builtItem_sel(3))

text \<open>The plan of \<open>twoDocs\<close>: two items and six steps, with the PIDs 1 to 8.\<close>

theorem pids_strictly_increasing_witness:
  "Build exampleExternals (exampleBuilder twoDocs) = Inr twoDocsPlan \<and>
   sorted_wrt (<) (map PID (emittedProcs exampleBuild twoDocsPlan)) \<and>
   distinct (map PID (emittedProcs exampleBuild twoDocsPlan))"
  using pids_strictly_increasing [OF Build_twoDocs, of exampleBuild] Build_twoDocs
  by blast

text \<open>
  The second document of \<open>twoDocs\<close> is restricted to the branch \<open>release\<close> and the
  build is on \<open>main\<close>: its item is in the plan and its steps are Skipped.
\<close>

theorem steps_skipped_iff_witness:
  "Build exampleExternals (exampleBuilder twoDocs) = Inr twoDocsPlan \<and>
   skippedStep \<in> set (stepProcs exampleBuild twoDocsPlan) \<and>
   (\<exists>item \<in> set twoDocsPlan.
      PPID skippedStep = PID (Proc item) \<and>
      (\<exists>parsed. itemFromDefinition exampleExternals (exampleBuilder twoDocs) item parsed \<and>
         (State skippedStep = StatusSkipped
            \<longleftrightarrow> \<not> Constraint_Match exampleExternals (Branches parsed)
                    (Build_Branch (Curr (exampleBuilder twoDocs))))))"
  using steps_skipped_iff [OF Build_twoDocs skippedStep_emitted] Build_twoDocs skippedStep_emitted
  by blast

text \<open>The definitions of the example parser declare no labels.\<close>

theorem labels_never_nil_witness:
  "Build exampleExternals (exampleBuilder twoDocs) = Inr twoDocsPlan \<and>
   hd twoDocsPlan \<in> set twoDocsPlan \<and>
   Config_Labels (exampleParse ''plain'') = None \<and>
   Labels (hd twoDocsPlan) \<noteq> None"
proof -
  have h: "hd twoDocsPlan \<in> set twoDocsPlan"
    by (simp add: twoDocsPlan_def)
  have "Config_Labels (exampleParse ''plain'') = None"
    by (simp add: exampleParse_def)
  then show ?thesis
    using labels_never_nil [OF Build_twoDocs h] Build_twoDocs h by blast
qed

lemma names_twoDocs:
  "map (\<lambda>y. sanitizePath (FileMeta_Name y) (Repo_Config (Repo (exampleBuilder twoDocs))))
       (Yamls (exampleBuilder twoDocs)) = [''test'', ''build'']"
  by (simp add: exampleBuilder_def twoDocs_def doc_def sanitizePath_def TrimSuffix_def TrimPrefix_def
        suffix_to_prefix)

text \<open>The two documents of \<open>twoDocs\<close>, neither with a matrix.\<close>

theorem item_names_witness:
  "Build exampleExternals (exampleBuilder twoDocs) = Inr twoDocsPlan \<and>
   distinct (map (\<lambda>y. sanitizePath (FileMeta_Name y) (Repo_Config (Repo (exampleBuilder twoDocs))))
                 (Yamls (exampleBuilder twoDocs))) \<and>
   distinct (map (\<lambda>i. Proc_Name (Proc i)) twoDocsPlan)"
proof -
  have d: "distinct (map (\<lambda>y. sanitizePath (FileMeta_Name y) (Repo_Config (Repo (exampleBuilder twoDocs))))
                 (Yamls (exampleBuilder twoDocs)))"
    unfolding names_twoDocs by simp
  have one: "\<forall>y \<in> set (Yamls (exampleBuilder twoDocs)). \<forall>axes.
      matrix_ParseString exampleExternals (FileMeta_Data y) = Inr axes \<longrightarrow> length axes \<le> 1"
    by (auto simp: exampleBuilder_def twoDocs_def doc_def exampleExternals_def)
  show ?thesis
    using item_names [OF Build_twoDocs] Build_twoDocs d one by blast
qed

lemma Build_matrixDocs: "Build exampleExternals (exampleBuilder matrixDocs) = Inr matrixPlan"
proof -
  have "Build_yamls exampleExternals (exampleBuilder matrixDocs) ([], 1, 0) (sort_ByName matrixDocs)
          = Inr (matrixPlan, 3, 2)"
    by (simp add: sort_ByName_def matrixDocs_def Build_yaml_eq example_documentAxes Build_axis_eq
          example_parsedFor example_Stages exampleStages_def matrixPlan_def)
  moreover have "filterItemsWithMissingDependencies matrixPlan = matrixPlan"
    by (simp add: filterItemsWithMissingDependencies.simps itemsToRemove_def matrixPlan_def exampleParse_def)
  ultimately show ?thesis
    by (simp add: Build_def exampleBuilder_def [of matrixDocs, THEN arg_cong [of _ _ Yamls]])
qed

text \<open>
  Claim C3 as stated fails: the two axes of the one document \<open>.woodpecker/ci.yml\<close>
  give two items, both named \<open>ci\<close>.
\<close>

theorem matrix_items_share_name:
  "Build exampleExternals (exampleBuilder matrixDocs) = Inr matrixPlan \<and>
   map (\<lambda>i. Proc_Name (Proc i)) matrixPlan = [''ci'', ''ci''] \<and>
   \<not> distinct (map (\<lambda>i. Proc_Name (Proc i)) matrixPlan)"
proof -
  have "map (\<lambda>i. Proc_Name (Proc i)) matrixPlan = [''ci'', ''ci'']"
    by (simp add: matrixPlan_def exampleBuilder_def doc_def sanitizePath_def TrimSuffix_def
          TrimPrefix_def suffix_to_prefix)
  then show ?thesis
    using Build_matrixDocs by simp
qed

lemma sort_failingDocs:
  "sort_ByName (Yamls (exampleBuilder failingDocs))
     = [doc ''.woodpecker/a.yml'' ''plain''] @ doc ''.woodpecker/b.yml'' ''privileged'' # []"
  by (simp add: sort_ByName_def exampleBuilder_def failingDocs_def doc_def less_eq_char_def less_char_def)

lemma Build_yamls_failingDocs:
  "Build_yamls exampleExternals (exampleBuilder failingDocs) ([], 1, 0) [doc ''.woodpecker/a.yml'' ''plain'']
     = Inr failingState"
  by (simp add: Build_yaml_eq example_documentAxes Build_axis_eq example_parsedFor
        example_Stages exampleStages_def failingState_def)

lemma documentFails_failingDocs:
  "documentFails exampleExternals (exampleBuilder failingDocs) failingState
     (doc ''.woodpecker/b.yml'' ''privileged'') (Error ''lint'')"
proof -
  have "documentAxes exampleExternals (doc ''.woodpecker/b.yml'' ''privileged'') = Inr ([] @ Map.empty # [])"
    by (simp add: example_documentAxes)
  moreover have "Build_axes exampleExternals (exampleBuilder failingDocs)
      (doc ''.woodpecker/b.yml'' ''privileged'') failingState [] = Inr (fst failingState, 2, 1)"
    by (simp add: failingState_def)
  moreover have "axisFails exampleExternals (exampleBuilder failingDocs)
      (doc ''.woodpecker/b.yml'' ''privileged'') 2 Map.empty (Error ''lint'')"
    by (simp add: axisFails_def envsubst_'_def exampleExternals_def doc_def exampleParse_def
          exampleBuilder_def)
  ultimately show ?thesis
    unfolding documentFails_def by blast
qed

text \<open>The second of \<open>failingDocs\<close> is rejected by the linter after the first gave an item.\<close>

theorem Build_aborts_witness:
  "sort_ByName (Yamls (exampleBuilder failingDocs))
     = [doc ''.woodpecker/a.yml'' ''plain''] @ doc ''.woodpecker/b.yml'' ''privileged'' # [] \<and>
   Build_yamls exampleExternals (exampleBuilder failingDocs) ([], 1, 0) [doc ''.woodpecker/a.yml'' ''plain'']
     = Inr failingState \<and>
   documentFails exampleExternals (exampleBuilder failingDocs) failingState
     (doc ''.woodpecker/b.yml'' ''privileged'') (Error ''lint'') \<and>
   Build exampleExternals (exampleBuilder failingDocs) = Inl (Error ''lint'')"
  using Build_aborts [of "exampleBuilder failingDocs" "[doc ''.woodpecker/a.yml'' ''plain'']"
      "doc ''.woodpecker/b.yml'' ''privileged''" "[]" exampleExternals failingState "Error ''lint''"]
    sort_failingDocs Build_yamls_failingDocs documentFails_failingDocs
  by blast

text \<open>
  Claim C6 as stated fails: the extra environment sets \<open>GO\<close> to \<open>extra\<close> and the axis
  sets it to \<open>1.1\<close>; the substitution looks up \<open>1.1\<close>.
\<close>

theorem extra_environment_not_consulted:
  "Envs (exampleBuilder matrixDocs) ''GO'' = Some ''extra'' \<and>
   envsubst_lookup exampleExternals
     (substEnviron exampleExternals (exampleBuilder matrixDocs) (doc ''.woodpecker/ci.yml'' ''two axes'')
        [''GO'' \<mapsto> ''1.1''] 1) ''GO'' = ''1.1''"
  by (simp add: exampleBuilder_def substEnviron_def environmentVariables_def envsubst_lookup_def
        exampleExternals_def Let_def)

text \<open>A value of two lines, a value of one line, and an absent variable.\<close>

theorem lookup_quotes_newlines_witness:
  "envsubst_lookup exampleExternals [''KEY'' \<mapsto> [CHR ''a'', CHR 0x0A, CHR ''b'']] ''KEY''
     = [CHR 0x22, CHR ''a'', CHR 0x5C, CHR ''n'', CHR ''b'', CHR 0x22] \<and>
   envsubst_lookup exampleExternals [''KEY'' \<mapsto> ''plain''] ''KEY'' = ''plain'' \<and>
   envsubst_lookup exampleExternals [''KEY'' \<mapsto> ''plain''] ''OTHER'' = []"
proof -
  have q: "fmt_Sprintf_q exampleExternals [CHR ''a'', CHR 0x0A, CHR ''b'']
             = [CHR 0x22, CHR ''a'', CHR 0x5C, CHR ''n'', CHR ''b'', CHR 0x22]"
    by (simp add: exampleExternals_def exampleQuote_def)
  note a = lookup_quotes_newlines
    [of "[''KEY'' \<mapsto> [CHR ''a'', CHR 0x0A, CHR ''b'']]" "''KEY''" exampleExternals]
  note b = lookup_quotes_newlines [of "[''KEY'' \<mapsto> ''plain'']" "''KEY''" exampleExternals]
  note c = lookup_quotes_newlines [of "[''KEY'' \<mapsto> ''plain'']" "''OTHER''" exampleExternals]
  have "envsubst_lookup exampleExternals [''KEY'' \<mapsto> [CHR ''a'', CHR 0x0A, CHR ''b'']] ''KEY''
          = fmt_Sprintf_q exampleExternals [CHR ''a'', CHR 0x0A, CHR ''b'']"
    using a by simp
  moreover have "envsubst_lookup exampleExternals [''KEY'' \<mapsto> ''plain''] ''KEY'' = ''plain''"
    using b by simp
  moreover have "envsubst_lookup exampleExternals [''KEY'' \<mapsto> ''plain''] ''OTHER'' = []"
    using c by simp
  ultimately show ?thesis
    using q by simp
qed

end
